theory Spec2Isabelle
  imports Main "HOL-Library.AList"
begin

unbundle bit_operations_syntax

section \<open>Data model of \<open>placeholder.py\<close>\<close>

text \<open>
  Python integers are unbounded, so they are \<open>int\<close>. The three named tuples of the module
  are records; a field carries a prefix where the source reuses its name in several
  classes (\<open>width\<close>, \<open>height\<close>) or where the name is a single letter (\<open>r\<close>, \<open>g\<close>, \<open>b\<close>).
\<close>

record BoundTuple =
  lower :: int
  upper :: int

record RGBTuple =
  rgb_r :: int
  rgb_g :: int
  rgb_b :: int

record RatioTuple =
  ratio_width :: int
  ratio_height :: int

datatype py_error =
  ZeroDivisionError | IndexError | ValueError | AttributeError | TypeError | OSError
  | FileExistsError | FileNotFoundError | NotADirectoryError | IsADirectoryError
  | SystemExit int

text \<open>
  The dictionary \<open>BOUNDS\<close>. Every lookup in the source uses a literal key that is
  present, so \<open>BOUNDS[k]\<close> is \<open>the (BOUNDS k)\<close> and never raises \<open>KeyError\<close>.
\<close>

definition BOUNDS :: "string \<rightharpoonup> BoundTuple" where
  "BOUNDS =
     [''width'' \<mapsto> \<lparr>lower = 32, upper = 4000\<rparr>,
      ''height'' \<mapsto> \<lparr>lower = 32, upper = 4000\<rparr>,
      ''ratio'' \<mapsto> \<lparr>lower = 1, upper = 30\<rparr>]"

section \<open>Validators\<close>

definition validate_range :: "int \<Rightarrow> BoundTuple \<Rightarrow> bool" where
  "validate_range value bounds \<longleftrightarrow> value \<ge> lower bounds \<and> value \<le> upper bounds"

text \<open>
  \<open>validate_ratio\<close> receives what argparse leaves in \<open>args.ratio\<close>: \<open>None\<close> when the
  flag is absent, otherwise a list of integers of any length. \<open>None\<close> is the one value
  that fails the \<open>isinstance(value, list)\<close> test.
\<close>

definition validate_ratio :: "int list option \<Rightarrow> bool" where
  "validate_ratio value =
     (case value of
        None \<Rightarrow> False
      | Some vs \<Rightarrow>
          if \<not> length vs = 2 then False
          else list_all (\<lambda>v. validate_range v (the (BOUNDS ''ratio''))) vs)"

section \<open>Dimension resolver\<close>

text \<open>Python's \<open>//\<close> on integers: floor division, raising on a zero divisor.\<close>

definition floordiv :: "int \<Rightarrow> int \<Rightarrow> py_error + int" where
  "floordiv a d = (if d = 0 then Inl ZeroDivisionError else Inr (a div d))"

definition dimmentions_from_ratio :: "RatioTuple \<Rightarrow> int \<Rightarrow> py_error + (int \<times> int)" where
  "dimmentions_from_ratio ratio base_dimmention =
     (case (if base_dimmention * ratio_width ratio > upper (the (BOUNDS ''width''))
            then floordiv (upper (the (BOUNDS ''width''))) (ratio_width ratio)
            else Inr base_dimmention) of
        Inl e \<Rightarrow> Inl e
      | Inr base1 \<Rightarrow>
          (case (if base1 * ratio_height ratio > upper (the (BOUNDS ''height''))
                 then floordiv (upper (the (BOUNDS ''height''))) (ratio_height ratio)
                 else Inr base1) of
             Inl e \<Rightarrow> Inl e
           | Inr base2 \<Rightarrow> Inr (base2 * ratio_width ratio, base2 * ratio_height ratio)))"

text \<open>The default value of the parameter \<open>base_dimmention\<close>.\<close>

definition base_dimmention_default :: int where
  "base_dimmention_default = 100"

section \<open>Hex colour validation\<close>

text \<open>
  \<open>validate_hex_color\<close> is one call of \<open>re.match\<close>. The fragment of Python's regular
  expressions that its pattern uses is embedded as a datatype with a backtracking matcher.
  A cursor is the number of characters consumed so far and the input that remains; the
  matcher returns every cursor at which the expression can stop, the greedy choice first.
  Strings are \<open>char list\<close>: a character outside ASCII is a run of bytes of which none is
  \<open>#\<close>, a hexadecimal digit or a newline, so it fails the pattern as the code point does.
\<close>

datatype regex =
  Bol | Eol | Lit char | CharSet "(char \<times> char) list"
  | Seq regex regex | Repeat regex nat nat

type_synonym cursor = "nat \<times> string"

definition in_ranges :: "char \<Rightarrow> (char \<times> char) list \<Rightarrow> bool" where
  "in_ranges c rs =
     list_ex (\<lambda>(lo, hi). (of_char lo :: nat) \<le> of_char c \<and> (of_char c :: nat) \<le> of_char hi) rs"

text \<open>\<open>r{lo,hi}\<close>: as many repetitions as possible first, at least \<open>lo\<close>, at most \<open>hi\<close>.\<close>

primrec rmatch_repeat :: "(cursor \<Rightarrow> cursor list) \<Rightarrow> nat \<Rightarrow> nat \<Rightarrow> cursor \<Rightarrow> cursor list" where
  "rmatch_repeat f lo 0 cur = (if lo = 0 then [cur] else [])"
| "rmatch_repeat f lo (Suc hi) cur =
     concat (map (rmatch_repeat f (lo - 1) hi) (f cur)) @ (if lo = 0 then [cur] else [])"

text \<open>
  Without the MULTILINE flag \<open>^\<close> matches at position 0 only, and \<open>$\<close> matches at the end
  of the string and also just before a newline that is the last character.
\<close>

primrec rmatch :: "regex \<Rightarrow> cursor \<Rightarrow> cursor list" where
  "rmatch Bol = (\<lambda>(i, rest). if i = 0 then [(i, rest)] else [])"
| "rmatch Eol = (\<lambda>(i, rest). if rest = [] \<or> rest = [CHR 0x0A] then [(i, rest)] else [])"
| "rmatch (Lit c) =
     (\<lambda>(i, rest). case rest of [] \<Rightarrow> [] | x # xs \<Rightarrow> if x = c then [(Suc i, xs)] else [])"
| "rmatch (CharSet rs) =
     (\<lambda>(i, rest). case rest of [] \<Rightarrow> [] | x # xs \<Rightarrow> if in_ranges x rs then [(Suc i, xs)] else [])"
| "rmatch (Seq r1 r2) = (\<lambda>cur. concat (map (rmatch r2) (rmatch r1 cur)))"
| "rmatch (Repeat r lo hi) = rmatch_repeat (rmatch r) lo hi"

text \<open>\<open>re.match\<close>: the end of the first match found from position 0, or \<open>None\<close>.\<close>

definition re_match :: "regex \<Rightarrow> string \<Rightarrow> nat option" where
  "re_match pattern s = (case rmatch pattern (0, s) of [] \<Rightarrow> None | (e, _) # _ \<Rightarrow> Some e)"

definition HEX_DIGIT :: "(char \<times> char) list" where
  "HEX_DIGIT = [(CHR ''0'', CHR ''9''), (CHR ''a'', CHR ''f''), (CHR ''A'', CHR ''F'')]"

text \<open>The pattern \<^verbatim>\<open>^#(?:[0-9a-fA-F]{3,4}){1,2}$\<close>.\<close>

definition HEX_COLOR_PATTERN :: regex where
  "HEX_COLOR_PATTERN =
     Seq Bol (Seq (Lit CHR ''#'') (Seq (Repeat (Repeat (CharSet HEX_DIGIT) 3 4) 1 2) Eol))"

text \<open>
  The function returns the match object or \<open>None\<close>; its callers only test the truth of
  the result, and a match object is true.
\<close>

definition validate_hex_color :: "string \<Rightarrow> bool" where
  "validate_hex_color value = (re_match HEX_COLOR_PATTERN value \<noteq> None)"

definition hexdigit :: "char \<Rightarrow> bool" where
  "hexdigit c = in_ranges c HEX_DIGIT"

section \<open>Colour conversion\<close>

text \<open>
  \<open>str.replace(old, new)\<close> for a one-character \<open>old\<close>: every occurrence is replaced.
\<close>

definition str_replace :: "string \<Rightarrow> char \<Rightarrow> string \<Rightarrow> string" where
  "str_replace s old new = concat (map (\<lambda>c. if c = old then new else [c]) s)"

text \<open>
  \<open>int(s, 16)\<close>: surrounding whitespace is stripped, then come an optional sign, an
  optional \<open>0x\<close> or \<open>0X\<close> prefix, and hexadecimal digits in which single underscores may
  separate digits (one may also follow the prefix). Anything else raises \<open>ValueError\<close>.
\<close>

definition is_space :: "char \<Rightarrow> bool" where
  "is_space c \<longleftrightarrow> (of_char c :: nat) \<in> {9, 10, 11, 12, 13, 32}"

definition str_strip :: "string \<Rightarrow> string" where
  "str_strip s = rev (dropWhile is_space (rev (dropWhile is_space s)))"

definition hex_value :: "char \<Rightarrow> int option" where
  "hex_value c =
     (let n = (of_char c :: nat) in
      if 48 \<le> n \<and> n \<le> 57 then Some (int n - 48)
      else if 97 \<le> n \<and> n \<le> 102 then Some (int n - 87)
      else if 65 \<le> n \<and> n \<le> 70 then Some (int n - 55)
      else None)"

fun hex_digits :: "int \<Rightarrow> bool \<Rightarrow> string \<Rightarrow> int option" where
  "hex_digits acc after_digit [] = (if after_digit then Some acc else None)"
| "hex_digits acc after_digit (c # cs) =
     (if c = CHR ''_'' then (if after_digit then hex_digits acc False cs else None)
      else case hex_value c of
             None \<Rightarrow> None
           | Some d \<Rightarrow> hex_digits (16 * acc + d) True cs)"

definition strip_sign :: "string \<Rightarrow> int \<times> string" where
  "strip_sign s =
     (case s of
        c # cs \<Rightarrow> if c = CHR ''+'' then (1, cs) else if c = CHR ''-'' then (- 1, cs) else (1, s)
      | [] \<Rightarrow> (1, s))"

definition strip_hex_prefix :: "string \<Rightarrow> string" where
  "strip_hex_prefix s =
     (case s of
        z # x # cs \<Rightarrow>
          if z = CHR ''0'' \<and> (x = CHR ''x'' \<or> x = CHR ''X'')
          then (case cs of u # ds \<Rightarrow> if u = CHR ''_'' then ds else cs | [] \<Rightarrow> cs)
          else s
      | _ \<Rightarrow> s)"

definition int_base16 :: "string \<Rightarrow> py_error + int" where
  "int_base16 s =
     (let (sign, body) = strip_sign (str_strip s) in
      case hex_digits 0 False (strip_hex_prefix body) of
        None \<Rightarrow> Inl ValueError
      | Some n \<Rightarrow> Inr (sign * n))"

text \<open>The third argument of the constructor call in \<open>main\<close>: \<open>int(color.replace("#", "0x"), 16)\<close>.\<close>

definition color_argument :: "string \<Rightarrow> py_error + int" where
  "color_argument color = int_base16 (str_replace color (CHR ''#'') ''0x'')"

section \<open>Text formatting\<close>

text \<open>\<open>str\<close> of an integer, as an f-string inserts it.\<close>

fun str_nat :: "nat \<Rightarrow> string" where
  "str_nat n =
     (if n < 10 then [''0123456789'' ! n]
      else str_nat (n div 10) @ [''0123456789'' ! (n mod 10)])"

declare str_nat.simps [simp del]

definition str_int :: "int \<Rightarrow> string" where
  "str_int i = (if i < 0 then CHR ''-'' # str_nat (nat (- i)) else str_nat (nat i))"

fun join :: "string \<Rightarrow> string list \<Rightarrow> string" where
  "join sep [] = []"
| "join sep [x] = x"
| "join sep (x # y # ys) = x @ sep @ join sep (y # ys)"

text \<open>What an f-string shows for \<open>args.ratio\<close>: \<open>None\<close> or the list of integers.\<close>

definition str_ratio :: "int list option \<Rightarrow> string" where
  "str_ratio value =
     (case value of
        None \<Rightarrow> ''None''
      | Some vs \<Rightarrow> ''['' @ join '', '' (map str_int vs) @ '']'')"

section \<open>File system\<close>

text \<open>
  A path is the list of its components. The file system is a tree: a regular file with
  its bytes, or a directory with its entries by name. A name is looked up with \<open>map_of\<close>,
  so the first entry of a name is the entry.
\<close>

type_synonym path = "string list"

datatype node = File string | Dir "(string \<times> node) list"

fun resolve :: "node \<Rightarrow> path \<Rightarrow> node option" where
  "resolve n [] = Some n"
| "resolve (File c) (x # xs) = None"
| "resolve (Dir es) (x # xs) = (case map_of es x of None \<Rightarrow> None | Some m \<Rightarrow> resolve m xs)"

definition is_dir :: "node \<Rightarrow> path \<Rightarrow> bool" where
  "is_dir fs p = (case resolve fs p of Some (Dir es) \<Rightarrow> True | _ \<Rightarrow> False)"

definition is_file :: "node \<Rightarrow> path \<Rightarrow> bool" where
  "is_file fs p = (case resolve fs p of Some (File c) \<Rightarrow> True | _ \<Rightarrow> False)"

definition iterdir :: "node \<Rightarrow> path \<Rightarrow> py_error + path list" where
  "iterdir fs p =
     (case resolve fs p of
        None \<Rightarrow> Inl FileNotFoundError
      | Some (File c) \<Rightarrow> Inl NotADirectoryError
      | Some (Dir es) \<Rightarrow> Inr (map (\<lambda>n. p @ [n]) (map fst es)))"

text \<open>\<open>Path.name\<close>: the final component.\<close>

definition name :: "path \<Rightarrow> string" where
  "name p = (if p = [] then [] else last p)"

definition as_posix :: "path \<Rightarrow> string" where
  "as_posix p = join ''/'' p"

text \<open>\<open>Path.mkdir(exist_ok=True, parents=True)\<close>.\<close>

fun mkdir_p :: "node \<Rightarrow> path \<Rightarrow> py_error + node" where
  "mkdir_p (Dir es) [] = Inr (Dir es)"
| "mkdir_p (File c) [] = Inl FileExistsError"
| "mkdir_p (File c) (x # xs) = Inl NotADirectoryError"
| "mkdir_p (Dir es) (x # xs) =
     (case mkdir_p (case map_of es x of None \<Rightarrow> Dir [] | Some m \<Rightarrow> m) xs of
        Inl e \<Rightarrow> Inl e
      | Inr m' \<Rightarrow> Inr (Dir (AList.update x m' es)))"

text \<open>Opening a path for writing and storing bytes there, as \<open>Image.save\<close> does.\<close>

fun write_file :: "node \<Rightarrow> path \<Rightarrow> string \<Rightarrow> py_error + node" where
  "write_file (File old) [] c = Inr (File c)"
| "write_file (Dir es) [] c = Inl IsADirectoryError"
| "write_file (File old) (x # xs) c = Inl NotADirectoryError"
| "write_file (Dir es) (x # xs) c =
     (case map_of es x of
        None \<Rightarrow>
          if xs = [] then Inr (Dir (AList.update x (File c) es)) else Inl FileNotFoundError
      | Some m \<Rightarrow>
          (case write_file m xs c of
             Inl e \<Rightarrow> Inl e
           | Inr m' \<Rightarrow> Inr (Dir (AList.update x m' es))))"

section \<open>Cache check\<close>

definition placeholder_exists :: "int \<Rightarrow> int \<Rightarrow> path \<Rightarrow> node \<Rightarrow> py_error + bool" where
  "placeholder_exists width height save_root fs =
     (if \<not> is_dir fs save_root then Inr False
      else case iterdir fs save_root of
             Inl e \<Rightarrow> Inl e
           | Inr fs_entries \<Rightarrow>
               Inr (str_int width @ ''_x_'' @ str_int height @ ''.jpg''
                    \<in> set (map name (filter (is_file fs) fs_entries))))"

section \<open>Log and program state\<close>

text \<open>
  \<open>main\<close> reports through the module's \<open>logger\<close>, which is configured outside \<open>main\<close>:
  the log is a list of records of its own, apart from the file system that \<open>main\<close>
  reads and writes.
\<close>

datatype log_level = INFO | ERROR

record world =
  disk :: node
  logged :: "(log_level \<times> string) list"

definition logger_info :: "string \<Rightarrow> world \<Rightarrow> world" where
  "logger_info msg w = w\<lparr>logged := logged w @ [(INFO, msg)]\<rparr>"

definition logger_error :: "string \<Rightarrow> world \<Rightarrow> world" where
  "logger_error msg w = w\<lparr>logged := logged w @ [(ERROR, msg)]\<rparr>"

section \<open>Image renderer\<close>

text \<open>
  The imaging library is a parameter. A bitmap has its size and its pixel data, of a type
  \<open>'px\<close> that the library owns: how a bitmap is filled, how a line is drawn, what the
  Gaussian blur computes and how a bitmap is encoded as JPEG are the four operations the
  module calls. Drawing and filtering keep the size of a bitmap.
\<close>

record 'px Image =
  im_width :: int
  im_height :: int
  im_pixels :: 'px

record 'px PIL =
  new_pixels :: "int \<times> int \<Rightarrow> RGBTuple \<Rightarrow> 'px"
  line_pixels :: "'px \<Rightarrow> int \<times> int \<times> int \<times> int \<Rightarrow> RGBTuple \<Rightarrow> int \<Rightarrow> 'px"
  gaussian_blur :: "int \<Rightarrow> 'px \<Rightarrow> 'px"
  jpeg_bytes :: "int \<times> int \<Rightarrow> 'px \<Rightarrow> string"

text \<open>\<open>Image.new("RGB", size, color)\<close>; a negative side raises \<open>ValueError\<close>.\<close>

definition Image_new :: "'px PIL \<Rightarrow> int \<times> int \<Rightarrow> RGBTuple \<Rightarrow> py_error + 'px Image" where
  "Image_new pil wh color =
     (if fst wh < 0 \<or> snd wh < 0 then Inl ValueError
      else Inr \<lparr>im_width = fst wh, im_height = snd wh, im_pixels = new_pixels pil wh color\<rparr>)"

text \<open>\<open>ImageDraw(image).line(xy, fill, width)\<close> draws on the bitmap it was given.\<close>

definition draw_line ::
  "'px PIL \<Rightarrow> 'px Image \<Rightarrow> int \<times> int \<times> int \<times> int \<Rightarrow> RGBTuple \<Rightarrow> int \<Rightarrow> 'px Image" where
  "draw_line pil im xy fill width = im\<lparr>im_pixels := line_pixels pil (im_pixels im) xy fill width\<rparr>"

text \<open>\<open>image.filter(ImageFilter.GaussianBlur(radius))\<close> returns a new bitmap.\<close>

definition Image_filter :: "'px PIL \<Rightarrow> 'px Image \<Rightarrow> int \<Rightarrow> 'px Image" where
  "Image_filter pil im radius = im\<lparr>im_pixels := gaussian_blur pil radius (im_pixels im)\<rparr>"

record 'px ImageGenerator =
  gen_width :: int
  gen_height :: int
  gen_color :: RGBTuple
  gen_image :: "'px Image option"
  gen_save_root :: path

definition ImageGenerator_init :: "int \<Rightarrow> int \<Rightarrow> int \<Rightarrow> path \<Rightarrow> 'px ImageGenerator" where
  "ImageGenerator_init width height color save_root =
     \<lparr>gen_width = width,
      gen_height = height,
      gen_color = \<lparr>rgb_r = drop_bit 16 color AND 0xFF,
                   rgb_g = drop_bit 8 color AND 0xFF,
                   rgb_b = color AND 0xFF\<rparr>,
      gen_image = None,
      gen_save_root = save_root\<rparr>"

definition inverted_color :: "'px ImageGenerator \<Rightarrow> RGBTuple" where
  "inverted_color self =
     \<lparr>rgb_r = 255 - rgb_r (gen_color self),
      rgb_g = 255 - rgb_g (gen_color self),
      rgb_b = 255 - rgb_b (gen_color self)\<rparr>"

definition setup_frame :: "'px PIL \<Rightarrow> 'px ImageGenerator \<Rightarrow> py_error + 'px ImageGenerator" where
  "setup_frame pil self =
     (case Image_new pil (gen_width self, gen_height self) (gen_color self) of
        Inl e \<Rightarrow> Inl e
      | Inr im \<Rightarrow> Inr (self\<lparr>gen_image := Some im\<rparr>))"

definition setup_cross :: "'px PIL \<Rightarrow> 'px ImageGenerator \<Rightarrow> py_error + 'px ImageGenerator" where
  "setup_cross pil self =
     (case gen_image self of
        None \<Rightarrow> Inl AttributeError
      | Some im \<Rightarrow>
          let width = (if im_width im < 1000 then 2 else 3);
              image1 = draw_line pil im (0, 0, gen_width self, gen_height self)
                         (inverted_color self) width;
              image2 = draw_line pil image1 (0, gen_height self, gen_width self, 0)
                         (inverted_color self) width
          in Inr (self\<lparr>gen_image := Some image2\<rparr>))"

text \<open>The filtered bitmap is computed and dropped: \<open>self.image\<close> is not assigned.\<close>

definition smoothen_image :: "'px PIL \<Rightarrow> 'px ImageGenerator \<Rightarrow> py_error + 'px ImageGenerator" where
  "smoothen_image pil self =
     (case gen_image self of
        None \<Rightarrow> Inl AttributeError
      | Some im \<Rightarrow> (let filtered = Image_filter pil im 1 in Inr self))"

text \<open>
  What the JPEG encoder refuses: a bitmap with an empty side, and a side beyond the 65500
  pixels of the format.
\<close>

definition jpeg_refuses :: "'px Image \<Rightarrow> py_error option" where
  "jpeg_refuses im =
     (if im_width im = 0 \<or> im_height im = 0 then Some ValueError
      else if 65500 < im_width im \<or> 65500 < im_height im then Some OSError
      else None)"

text \<open>
  \<open>Image.save\<close> opens the path for writing, which creates the file or empties it, and then
  encodes. When the encoder refuses the bitmap the exception leaves \<open>save\<close>, which first
  removes the file if the call had created it; a file that was there before stays empty.
\<close>

definition save_image ::
  "'px PIL \<Rightarrow> 'px ImageGenerator \<Rightarrow> world \<Rightarrow> (py_error + 'px ImageGenerator) \<times> world" where
  "save_image pil self w =
     (case gen_image self of
        None \<Rightarrow> (Inl AttributeError, w)
      | Some im \<Rightarrow>
          let file_name = str_int (im_width im) @ ''_x_'' @ str_int (im_height im) @ ''.jpg''
          in case write_file (disk w) (gen_save_root self @ [file_name]) [] of
               Inl e \<Rightarrow> (Inl e, w)
             | Inr opened \<Rightarrow>
                 (case jpeg_refuses im of
                    Some e \<Rightarrow>
                      (Inl e,
                       w\<lparr>disk := (if resolve (disk w) (gen_save_root self @ [file_name]) = None
                                   then disk w else opened)\<rparr>)
                  | None \<Rightarrow>
                      (case write_file opened (gen_save_root self @ [file_name])
                              (jpeg_bytes pil (im_width im, im_height im) (im_pixels im)) of
                         Inl e \<Rightarrow> (Inl e, w\<lparr>disk := opened\<rparr>)
                       | Inr fs' \<Rightarrow>
                           (Inr self,
                            logger_info (''Saved placeholder image @ ''
                                           @ as_posix (gen_save_root self) @ ''/'' @ file_name)
                              (w\<lparr>disk := fs'\<rparr>)))))"

definition start ::
  "'px PIL \<Rightarrow> 'px ImageGenerator \<Rightarrow> world \<Rightarrow> (py_error + 'px ImageGenerator) \<times> world" where
  "start pil self w =
     (case setup_frame pil self of
        Inl e \<Rightarrow> (Inl e, w)
      | Inr self1 \<Rightarrow>
          (case setup_cross pil self1 of
             Inl e \<Rightarrow> (Inl e, w)
           | Inr self2 \<Rightarrow>
               (case smoothen_image pil self2 of
                  Inl e \<Rightarrow> (Inl e, w)
                | Inr self3 \<Rightarrow> save_image pil self3 w)))"

section \<open>Command entry point\<close>

text \<open>
  The members of the string enumeration \<open>DimmentionOptions\<close> and their values, which
  \<open>auto()\<close> makes the lower-case names. The \<open>match\<close> statement compares \<open>args.option\<close>
  with the members by equality, that is, as strings.
\<close>

datatype DimmentionOptions = SIZE | RATIO

fun option_value :: "DimmentionOptions \<Rightarrow> string" where
  "option_value SIZE = ''size''"
| "option_value RATIO = ''ratio''"

text \<open>
  The namespace that \<open>parse_args\<close> returns, with an output directory. (\<open>parse_args\<close> itself,
  and the namespace whose \<open>out\<close> is \<open>None\<close>, follow further down.)
\<close>

record Args =
  args_option :: string
  args_width :: "int option"
  args_height :: "int option"
  args_ratio :: "int list option"
  args_color :: string
  args_out :: path

text \<open>Truth of an optional integer: \<open>None\<close> and 0 are false.\<close>

definition truthy :: "int option \<Rightarrow> bool" where
  "truthy v = (case v of None \<Rightarrow> False | Some n \<Rightarrow> n \<noteq> 0)"

definition list_item :: "'a list \<Rightarrow> nat \<Rightarrow> py_error + 'a" where
  "list_item xs i = (if i < length xs then Inr (xs ! i) else Inl IndexError)"

text \<open>
  The \<open>match\<close> statement of \<open>main\<close>. It ends in one of three ways: an error is logged and
  \<open>main\<close> returns 1, an exception leaves \<open>main\<close>, or \<open>width\<close> and \<open>height\<close> are bound.
\<close>

datatype dimensions = Rejected string | Raised py_error | Resolved int int

definition match_option :: "Args \<Rightarrow> dimensions" where
  "match_option args =
     (if args_option args = option_value SIZE then
        (if \<not> (truthy (args_width args) \<and> truthy (args_height args))
         then Rejected ''Missing width or height''
         else if \<not> (validate_range (the (args_width args)) (the (BOUNDS ''width''))
                     \<and> validate_range (the (args_height args)) (the (BOUNDS ''height'')))
         then Rejected (''Invalid size '' @ str_int (the (args_width args)) @ ''x''
                          @ str_int (the (args_height args)))
         else Resolved (the (args_width args)) (the (args_height args)))
      else if args_option args = option_value RATIO then
        (if \<not> validate_ratio (args_ratio args)
         then Rejected (''Invalid ratio: '' @ str_ratio (args_ratio args))
         else case list_item (the (args_ratio args)) 0 of
                Inl e \<Rightarrow> Rejected ''Missing width or height ratio''
              | Inr rw \<Rightarrow>
                  (case list_item (the (args_ratio args)) 1 of
                     Inl e \<Rightarrow> Rejected ''Missing width or height ratio''
                   | Inr rh \<Rightarrow>
                       (case dimmentions_from_ratio \<lparr>ratio_width = rw, ratio_height = rh\<rparr>
                               base_dimmention_default of
                          Inl e \<Rightarrow> Raised e
                        | Inr (width, height) \<Rightarrow> Resolved width height)))
      else Rejected (''Invalid option '' @ args_option args))"

text \<open>
  \<open>main\<close> from the \<open>match\<close> statement on, as a function of the namespace. It returns 1,
  or \<open>None\<close> (after the cache hit and at its end), or an exception leaves it: the result
  is the exception or the returned value. \<open>main_cli\<close> below puts \<open>parse_args\<close>, the
  statement before, in front of it.
\<close>

definition main :: "'px PIL \<Rightarrow> Args \<Rightarrow> world \<Rightarrow> (py_error + int option) \<times> world" where
  "main pil args w =
     (case match_option args of
        Rejected msg \<Rightarrow> (Inr (Some 1), logger_error msg w)
      | Raised e \<Rightarrow> (Inl e, w)
      | Resolved width height \<Rightarrow>
          if \<not> validate_hex_color (args_color args)
          then (Inr (Some 1), logger_error (''Invalid color '' @ args_color args) w)
          else
            (case mkdir_p (disk w) (args_out args @ [''placeholders'']) of
               Inl e \<Rightarrow> (Inl e, w)
             | Inr fs1 \<Rightarrow>
                 (case placeholder_exists width height (args_out args @ [''placeholders'']) fs1 of
                    Inl e \<Rightarrow> (Inl e, w\<lparr>disk := fs1\<rparr>)
                  | Inr True \<Rightarrow>
                      (Inr None,
                       logger_info (''Placeholder '' @ str_int width @ ''x'' @ str_int height
                                      @ '' already exists in placeholders directory'')
                         (w\<lparr>disk := fs1\<rparr>))
                  | Inr False \<Rightarrow>
                      (case color_argument (args_color args) of
                         Inl e \<Rightarrow> (Inl e, w\<lparr>disk := fs1\<rparr>)
                       | Inr color \<Rightarrow>
                           (case start pil
                                   (ImageGenerator_init width height color
                                      (args_out args @ [''placeholders'']))
                                   (w\<lparr>disk := fs1\<rparr>) of
                              (Inl e, w') \<Rightarrow> (Inl e, w')
                            | (Inr generator, w') \<Rightarrow> (Inr None, w'))))))"

section \<open>Command line and program\<close>

text \<open>
  \<open>main\<close> begins with \<open>parser.parse_args()\<close>. How argparse matches the tokens of the command
  line against the declared arguments belongs to the library and is a parameter, and so
  are Python's \<open>int\<close> on a token, the place in the tree that a path string names, and the
  directory two levels above the program file. What the source declares is modelled: the
  destinations, the converter of each (\<open>type=\<close>), the shape of its values (\<open>nargs=\<close>) and
  the defaults.

  The matching ends in a usage error, in the help text, or in the strings for each
  destination: \<open>raw_width\<close> and \<open>raw_height\<close> are \<open>None\<close> when the flag is absent or has no
  value, \<open>raw_ratio\<close> and \<open>raw_color\<close> are \<open>None\<close> when the flag is absent, and \<open>raw_out\<close> is
  \<open>None\<close> when \<open>--out\<close> is absent and \<open>Some None\<close> when it has no value.
\<close>

record RawArgs =
  raw_option :: string
  raw_width :: "string option"
  raw_height :: "string option"
  raw_ratio :: "string list option"
  raw_color :: "string option"
  raw_out :: "string option option"

datatype grouping = Usage_error | Help_requested | Grouped RawArgs

record Host =
  group_args :: "string list \<Rightarrow> grouping"
  str_to_int :: "string \<Rightarrow> int option"
  to_path :: "string \<Rightarrow> path"
  program_root :: path

text \<open>\<open>DimmentionOptions(value)\<close>: the member with that value, or \<open>ValueError\<close>.\<close>

definition DimmentionOptions_of :: "string \<Rightarrow> DimmentionOptions option" where
  "DimmentionOptions_of v =
     (if v = option_value SIZE then Some SIZE
      else if v = option_value RATIO then Some RATIO
      else None)"

text \<open>
  The converter \<open>int\<close> on an optional token and on a list of tokens; the outer \<open>None\<close> is a
  token that \<open>int\<close> refuses.
\<close>

definition optional_int :: "Host \<Rightarrow> string option \<Rightarrow> int option option" where
  "optional_int host v =
     (case v of None \<Rightarrow> Some None | Some s \<Rightarrow> map_option Some (str_to_int host s))"

definition optional_ints :: "Host \<Rightarrow> string list option \<Rightarrow> int list option option" where
  "optional_ints host v =
     (case v of
        None \<Rightarrow> Some None
      | Some ss \<Rightarrow> map_option Some (those (map (str_to_int host) ss)))"

text \<open>The namespace as \<open>parse_args\<close> returns it: \<open>out\<close> is \<open>None\<close> after a bare \<open>--out\<close>.\<close>

record Namespace =
  ns_option :: DimmentionOptions
  ns_width :: "int option"
  ns_height :: "int option"
  ns_ratio :: "int list option"
  ns_color :: string
  ns_out :: "path option"

definition namespace_args :: "Namespace \<Rightarrow> path \<Rightarrow> Args" where
  "namespace_args ns out =
     \<lparr>args_option = option_value (ns_option ns), args_width = ns_width ns,
      args_height = ns_height ns, args_ratio = ns_ratio ns, args_color = ns_color ns,
      args_out = out\<rparr>"

text \<open>
  \<open>parse_args\<close>: a usage error and a value that its converter refuses end in
  \<open>SystemExit(2)\<close>, the help text in \<open>SystemExit(0)\<close>.
\<close>

definition parse_args :: "Host \<Rightarrow> string list \<Rightarrow> py_error + Namespace" where
  "parse_args host argv =
     (case group_args host argv of
        Usage_error \<Rightarrow> Inl (SystemExit 2)
      | Help_requested \<Rightarrow> Inl (SystemExit 0)
      | Grouped raw \<Rightarrow>
          (case (DimmentionOptions_of (raw_option raw), optional_int host (raw_width raw),
                 optional_int host (raw_height raw), optional_ints host (raw_ratio raw)) of
             (Some opt, Some width, Some height, Some ratio) \<Rightarrow>
               Inr \<lparr>ns_option = opt, ns_width = width, ns_height = height, ns_ratio = ratio,
                    ns_color = (case raw_color raw of None \<Rightarrow> ''#96b08a'' | Some c \<Rightarrow> c),
                    ns_out = (case raw_out raw of
                                None \<Rightarrow> Some (program_root host)
                              | Some None \<Rightarrow> None
                              | Some (Some s) \<Rightarrow> Some (to_path host s))\<rparr>
           | _ \<Rightarrow> Inl (SystemExit 2)))"

text \<open>
  The whole of \<open>main\<close>. When \<open>out\<close> is \<open>None\<close> the \<open>match\<close> statement and the colour check
  run as they do otherwise, and \<open>args.out / "placeholders"\<close> raises \<open>TypeError\<close>.
\<close>

definition main_cli ::
  "Host \<Rightarrow> 'px PIL \<Rightarrow> string list \<Rightarrow> world \<Rightarrow> (py_error + int option) \<times> world" where
  "main_cli host pil argv w =
     (case parse_args host argv of
        Inl e \<Rightarrow> (Inl e, w)
      | Inr ns \<Rightarrow>
          (case ns_out ns of
             Some out \<Rightarrow> main pil (namespace_args ns out) w
           | None \<Rightarrow>
               (case match_option (namespace_args ns []) of
                  Rejected msg \<Rightarrow> (Inr (Some 1), logger_error msg w)
                | Raised e \<Rightarrow> (Inl e, w)
                | Resolved width height \<Rightarrow>
                    if \<not> validate_hex_color (ns_color ns)
                    then (Inr (Some 1), logger_error (''Invalid color '' @ ns_color ns) w)
                    else (Inl TypeError, w))))"

text \<open>
  The block under \<open>if __name__ == "__main__"\<close>: it makes the directory of the log file,
  opens the log file for appending, and calls \<open>main()\<close> without using what it returns. The
  result is the exit status of the process: the code of a \<open>SystemExit\<close>, 1 after any other
  exception, and 0 whenever \<open>main\<close> returns. The records that go to the log file are the
  component \<open>logged\<close>; the tree only has the file.
\<close>

definition open_append :: "node \<Rightarrow> path \<Rightarrow> py_error + node" where
  "open_append fs p =
     (case resolve fs p of
        Some (File c) \<Rightarrow> Inr fs
      | Some (Dir es) \<Rightarrow> Inl IsADirectoryError
      | None \<Rightarrow> write_file fs p [])"

definition script :: "Host \<Rightarrow> 'px PIL \<Rightarrow> string list \<Rightarrow> world \<Rightarrow> int \<times> world" where
  "script host pil argv w =
     (case mkdir_p (disk w) (program_root host @ [''logs'']) of
        Inl e \<Rightarrow> (1, w)
      | Inr fs0 \<Rightarrow>
          (case open_append fs0 (program_root host @ [''logs'', ''usage.log'']) of
             Inl e \<Rightarrow> (1, w\<lparr>disk := fs0\<rparr>)
           | Inr fs1 \<Rightarrow>
               (case main_cli host pil argv (w\<lparr>disk := fs1\<rparr>) of
                  (Inl (SystemExit status), w') \<Rightarrow> (status, w')
                | (Inl e, w') \<Rightarrow> (1, w')
                | (Inr returned, w') \<Rightarrow> (0, w'))))"

section \<open>Sample runs\<close>

text \<open>
  A library whose pixel data is a string that records what was done to it, and a host for
  three command lines: a width below the bound, an unknown mode, and a colour of seven
  digits.
\<close>

definition sample_pil :: "string PIL" where
  "sample_pil =
     \<lparr>new_pixels = (\<lambda>wh c. ''n''), line_pixels = (\<lambda>p xy c w. p @ ''l''),
      gaussian_blur = (\<lambda>r p. p @ ''b''), jpeg_bytes = (\<lambda>wh p. p)\<rparr>"

definition narrow_argv :: "string list" where
  "narrow_argv = [''size'', ''--width'', ''10'', ''--height'', ''100'', ''-o'', ''out'']"

definition seven_argv :: "string list" where
  "seven_argv =
     [''size'', ''--width'', ''200'', ''--height'', ''100'', ''-c'', ''#1234567'', ''-o'', ''out'']"

definition sample_host :: Host where
  "sample_host =
     \<lparr>group_args =
        (\<lambda>argv.
           if argv = narrow_argv then
             Grouped \<lparr>raw_option = ''size'', raw_width = Some ''10'', raw_height = Some ''100'',
                      raw_ratio = None, raw_color = None, raw_out = Some (Some ''out'')\<rparr>
           else if argv = seven_argv then
             Grouped \<lparr>raw_option = ''size'', raw_width = Some ''200'', raw_height = Some ''100'',
                      raw_ratio = None, raw_color = Some ''#1234567'',
                      raw_out = Some (Some ''out'')\<rparr>
           else if argv = [''foo''] then
             Grouped \<lparr>raw_option = ''foo'', raw_width = None, raw_height = None,
                      raw_ratio = None, raw_color = None, raw_out = None\<rparr>
           else Usage_error),
      str_to_int =
        (\<lambda>s. if s = ''10'' then Some 10 else if s = ''100'' then Some 100
             else if s = ''200'' then Some 200 else None),
      to_path = (\<lambda>s. [s]),
      program_root = [''app'']\<rparr>"

section \<open>Notions of the specification\<close>

text \<open>
  The colour that a hex colour string denotes, as the specification describes it: the
  three-digit and four-digit forms repeat each digit, the six-digit and eight-digit forms
  give two digits to each channel, and the digits of the alpha channel are ignored.
\<close>

definition denoted_rgb :: "string \<Rightarrow> RGBTuple option" where
  "denoted_rgb s =
     (case s of
        [] \<Rightarrow> None
      | c # ds \<Rightarrow>
          if c \<noteq> CHR ''#'' then None
          else case those (map hex_value ds) of
                 None \<Rightarrow> None
               | Some vs \<Rightarrow>
                   if length vs = 3 \<or> length vs = 4
                   then Some \<lparr>rgb_r = 17 * vs ! 0, rgb_g = 17 * vs ! 1, rgb_b = 17 * vs ! 2\<rparr>
                   else if length vs = 6 \<or> length vs = 8
                   then Some \<lparr>rgb_r = 16 * vs ! 0 + vs ! 1, rgb_g = 16 * vs ! 2 + vs ! 3,
                               rgb_b = 16 * vs ! 4 + vs ! 5\<rparr>
                   else None)"

text \<open>
  The inputs that fail validation, as the specification lists them. An unrecognised mode
  and a number that is no integer literal are refused while the command line is parsed.
  Of the parsed values the dimensions fail when, in size mode, one is missing or outside
  32 to 4000, and in ratio mode, when the ratio is not exactly two components within 1 to
  30. A well-formed colour is \<open>#\<close> and 3, 4, 6 or 8 hexadecimal digits. The two further
  forms are the ones that \<open>validate_hex_color\<close> lets through beside them, seven digits or a
  final newline: of these nothing is said, and a colour fails when it is neither.
\<close>

definition hex_color_with :: "nat list \<Rightarrow> string \<Rightarrow> bool" where
  "hex_color_with lengths s =
     (case s of
        [] \<Rightarrow> False
      | c # ds \<Rightarrow> c = CHR ''#'' \<and> list_all hexdigit ds \<and> length ds \<in> set lengths)"

definition well_formed_color :: "string \<Rightarrow> bool" where
  "well_formed_color s = hex_color_with [3, 4, 6, 8] s"

definition further_form :: "string \<Rightarrow> bool" where
  "further_form s \<longleftrightarrow>
     hex_color_with [7] s
     \<or> (s \<noteq> [] \<and> last s = CHR 0x0A \<and> hex_color_with [3, 4, 6, 7, 8] (butlast s))"

definition color_fails :: "string \<Rightarrow> bool" where
  "color_fails s \<longleftrightarrow> \<not> well_formed_color s \<and> \<not> further_form s"

definition dimensions_fail :: "Namespace \<Rightarrow> bool" where
  "dimensions_fail ns =
     (case ns_option ns of
        SIZE \<Rightarrow>
          (case (ns_width ns, ns_height ns) of
             (Some w, Some h) \<Rightarrow> \<not> (32 \<le> w \<and> w \<le> 4000 \<and> 32 \<le> h \<and> h \<le> 4000)
           | _ \<Rightarrow> True)
      | RATIO \<Rightarrow>
          (case ns_ratio ns of
             Some [a, b] \<Rightarrow> \<not> (1 \<le> a \<and> a \<le> 30 \<and> 1 \<le> b \<and> b \<le> 30)
           | _ \<Rightarrow> True))"

definition fails_validation :: "Namespace \<Rightarrow> bool" where
  "fails_validation ns \<longleftrightarrow> dimensions_fail ns \<or> color_fails (ns_color ns)"

definition refused_by_parser :: "Host \<Rightarrow> RawArgs \<Rightarrow> bool" where
  "refused_by_parser host raw \<longleftrightarrow>
     (raw_option raw \<noteq> ''size'' \<and> raw_option raw \<noteq> ''ratio'')
     \<or> (case raw_width raw of None \<Rightarrow> False | Some s \<Rightarrow> str_to_int host s = None)
     \<or> (case raw_height raw of None \<Rightarrow> False | Some s \<Rightarrow> str_to_int host s = None)
     \<or> (case raw_ratio raw of
           None \<Rightarrow> False
         | Some ss \<Rightarrow> list_ex (\<lambda>s. str_to_int host s = None) ss)"

section \<open>Properties of the validators and of the resolver\<close>

lemma BOUNDS_width: "the (BOUNDS ''width'') = \<lparr>lower = 32, upper = 4000\<rparr>"
  by (simp add: BOUNDS_def)

lemma BOUNDS_height: "the (BOUNDS ''height'') = \<lparr>lower = 32, upper = 4000\<rparr>"
  by (simp add: BOUNDS_def)

lemma BOUNDS_ratio: "the (BOUNDS ''ratio'') = \<lparr>lower = 1, upper = 30\<rparr>"
  by (simp add: BOUNDS_def)

lemma validate_ratio_pair:
  "validate_ratio (Some [w, h]) \<longleftrightarrow> 1 \<le> w \<and> w \<le> 30 \<and> 1 \<le> h \<and> h \<le> 30"
  by (auto simp: validate_ratio_def validate_range_def BOUNDS_ratio)

text \<open>
  The shrink branches divide only after \<open>base * component > 4000\<close> held, which a zero
  component cannot satisfy: the division never raises.
\<close>

lemma dimmentions_from_ratio_unfold:
  "dimmentions_from_ratio ratio base =
     (let base1 = (if base * ratio_width ratio > 4000 then 4000 div ratio_width ratio else base);
          base2 = (if base1 * ratio_height ratio > 4000 then 4000 div ratio_height ratio else base1)
      in Inr (base2 * ratio_width ratio, base2 * ratio_height ratio))"
  by (auto simp: dimmentions_from_ratio_def floordiv_def BOUNDS_width BOUNDS_height Let_def)

lemma div_mult_le_pos: "0 < (d::int) \<Longrightarrow> (a div d) * d \<le> a"
  using div_mult_mod_eq [of a d] pos_mod_sign [of d a] by linarith

lemma shrunk_base_less:
  assumes "0 < (d::int)" and "c * d > a"
  shows "a div d < c"
proof (rule ccontr)
  assume "\<not> a div d < c"
  then have "c \<le> a div d" by simp
  then have "c * d \<le> (a div d) * d" using assms(1) by (simp add: mult_right_mono)
  also have "\<dots> \<le> a" using assms(1) by (rule div_mult_le_pos)
  finally show False using assms(2) by simp
qed

text \<open>
  C9: for every list \<open>p\<close> of integers, \<open>validate_ratio p\<close> is true exactly when \<open>p\<close> has
  two elements and both lie in the inclusive range from 1 to 30.
\<close>

theorem validate_ratio_iff:
  "validate_ratio (Some p) \<longleftrightarrow> length p = 2 \<and> (\<forall>v \<in> set p. 1 \<le> v \<and> v \<le> 30)"
  by (auto simp: validate_ratio_def validate_range_def BOUNDS_ratio list_all_iff)

theorem validate_ratio_iff_witness:
  "length [16, 9 :: int] = 2 \<and> (1::int) \<le> 16 \<and> (16::int) \<le> 30 \<and> (1::int) \<le> 9 \<and> (9::int) \<le> 30
   \<and> validate_ratio (Some [16, 9])
   \<and> \<not> validate_ratio (Some [16, 9, 1]) \<and> \<not> validate_ratio (Some [0, 9])
   \<and> \<not> validate_ratio (Some [16, 31])"
  using validate_ratio_iff [of "[16, 9]"] validate_ratio_iff [of "[16, 9, 1]"]
    validate_ratio_iff [of "[0, 9]"] validate_ratio_iff [of "[16, 31]"]
  by simp

text \<open>
  C4: for a ratio with both components at least 1 and a base of at least 1, the base is
  first shrunk against the width bound, the shrunk value is the one tested and shrunk
  against the height bound, both returned dimensions are products of that one final base,
  and neither exceeds 4000.
\<close>

theorem dimmentions_from_ratio_bounded:
  assumes "1 \<le> ratio_width ratio" and "1 \<le> ratio_height ratio" and "1 \<le> base"
  shows "\<exists>base1 base2.
           base1 = (if base * ratio_width ratio > 4000 then 4000 div ratio_width ratio else base)
         \<and> base2 = (if base1 * ratio_height ratio > 4000 then 4000 div ratio_height ratio else base1)
         \<and> dimmentions_from_ratio ratio base = Inr (base2 * ratio_width ratio, base2 * ratio_height ratio)
         \<and> base2 * ratio_width ratio \<le> 4000 \<and> base2 * ratio_height ratio \<le> 4000"
proof -
  define w where "w = ratio_width ratio"
  define h where "h = ratio_height ratio"
  define base1 where "base1 = (if base * w > 4000 then 4000 div w else base)"
  define base2 where "base2 = (if base1 * h > 4000 then 4000 div h else base1)"
  have w: "0 < w" and h: "0 < h" using assms by (simp_all add: w_def h_def)
  have b1: "base1 * w \<le> 4000"
    using div_mult_le_pos [OF w, of 4000] by (simp add: base1_def)
  have le: "base2 \<le> base1"
    using shrunk_base_less [OF h, of 4000 base1] by (auto simp: base2_def)
  have "base2 * w \<le> base1 * w"
    using le w by (simp add: mult_right_mono)
  then have bw: "base2 * w \<le> 4000" using b1 by simp
  have bh: "base2 * h \<le> 4000"
    using div_mult_le_pos [OF h, of 4000] by (simp add: base2_def)
  have "dimmentions_from_ratio ratio base = Inr (base2 * w, base2 * h)"
    by (simp add: dimmentions_from_ratio_unfold Let_def base2_def base1_def w_def h_def)
  then show ?thesis
    using bw bh unfolding base2_def base1_def w_def h_def by blast
qed

theorem dimmentions_from_ratio_bounded_witness:
  "(1::int) \<le> 3 \<and> (1::int) \<le> 50 \<and> (1::int) \<le> 2000
   \<and> dimmentions_from_ratio \<lparr>ratio_width = 3, ratio_height = 50\<rparr> 2000 = Inr (240, 4000)"
  using dimmentions_from_ratio_bounded [of "\<lparr>ratio_width = 3, ratio_height = 50\<rparr>" 2000]
  by simp

text \<open>
  C1, as the specification states it: the ratio (30, 1) with base 100 would come back as
  width 3990 and height 133. The code returns something else.
\<close>

theorem ratio_30_1_base_100_counterexample:
  "dimmentions_from_ratio \<lparr>ratio_width = 30, ratio_height = 1\<rparr> 100 \<noteq> Inr (3990, 133)"
  by (simp add: dimmentions_from_ratio_unfold)

text \<open>
  C1, amended: with base 100 the product 100 * 30 = 3000 does not exceed 4000, so the base
  is kept and the result is width 3000, height 100. The shrink to 4000 // 30 = 133, with
  width 3990 and height 133, is what a base whose product exceeds 4000 gives, such as 200.
\<close>

theorem ratio_30_1_base_100:
  "dimmentions_from_ratio \<lparr>ratio_width = 30, ratio_height = 1\<rparr> 100 = Inr (3000, 100)
   \<and> dimmentions_from_ratio \<lparr>ratio_width = 30, ratio_height = 1\<rparr> 200 = Inr (3990, 133)"
  by (simp add: dimmentions_from_ratio_unfold)



section \<open>Properties of the hex colour validator\<close>

lemma rmatch_repeat_CharSet:
  "set (rmatch_repeat (rmatch (CharSet rs)) lo hi (i, rest)) =
     {(i + k, drop k rest) | k. lo \<le> k \<and> k \<le> hi \<and> k \<le> length rest
        \<and> list_all (\<lambda>c. in_ranges c rs) (take k rest)}"
proof (induction hi arbitrary: lo i rest)
  case 0
  then show ?case by auto
next
  case (Suc hi)
  show ?case
  proof (cases rest)
    case Nil
    then show ?thesis by auto
  next
    case (Cons x xs)
    show ?thesis
    proof (cases "in_ranges x rs")
      case False
      have k0: "k = 0" if "list_all (\<lambda>c. in_ranges c rs) (take k rest)" for k
        using that False Cons by (cases k) auto
      have "{(i + k, drop k rest) | k. lo \<le> k \<and> k \<le> Suc hi \<and> k \<le> length rest
               \<and> list_all (\<lambda>c. in_ranges c rs) (take k rest)}
            = (if lo = 0 then {(i, rest)} else {})"
      proof (rule set_eqI, rule iffI)
        fix c
        assume "c \<in> {(i + k, drop k rest) | k. lo \<le> k \<and> k \<le> Suc hi \<and> k \<le> length rest
               \<and> list_all (\<lambda>c. in_ranges c rs) (take k rest)}"
        then obtain k where "c = (i + k, drop k rest)" "lo \<le> k"
            "list_all (\<lambda>c. in_ranges c rs) (take k rest)"
          by auto
        with k0 [of k] show "c \<in> (if lo = 0 then {(i, rest)} else {})" by simp
      next
        fix c
        assume "c \<in> (if lo = 0 then {(i, rest)} else {})"
        then have "lo = 0" "c = (i + 0, drop 0 rest)" by (auto split: if_splits)
        then show "c \<in> {(i + k, drop k rest) | k. lo \<le> k \<and> k \<le> Suc hi \<and> k \<le> length rest
               \<and> list_all (\<lambda>c. in_ranges c rs) (take k rest)}"
          by (intro CollectI exI [of _ 0]) simp
      qed
      moreover have "set (rmatch_repeat (rmatch (CharSet rs)) lo (Suc hi) (i, rest))
            = (if lo = 0 then {(i, rest)} else {})"
        using False Cons by simp
      ultimately show ?thesis by simp
    next
      case True
      have "set (rmatch_repeat (rmatch (CharSet rs)) lo (Suc hi) (i, rest)) =
            set (rmatch_repeat (rmatch (CharSet rs)) (lo - 1) hi (Suc i, xs))
              \<union> (if lo = 0 then {(i, rest)} else {})"
        using True Cons by simp
      also have "\<dots> = {(Suc i + k, drop k xs) | k. lo - 1 \<le> k \<and> k \<le> hi \<and> k \<le> length xs
                \<and> list_all (\<lambda>c. in_ranges c rs) (take k xs)}
           \<union> (if lo = 0 then {(i, rest)} else {})"
        by (simp only: Suc.IH)
      also have "\<dots> = {(i + k, drop k rest) | k. lo \<le> k \<and> k \<le> Suc hi \<and> k \<le> length rest
                \<and> list_all (\<lambda>c. in_ranges c rs) (take k rest)}"
        (is "?L = ?R")
      proof (rule set_eqI, rule iffI)
        fix c assume "c \<in> ?L"
        then consider k where "c = (Suc i + k, drop k xs)" "lo - 1 \<le> k" "k \<le> hi"
            "k \<le> length xs" "list_all (\<lambda>c. in_ranges c rs) (take k xs)"
          | "lo = 0" "c = (i, rest)" by (auto split: if_splits)
        then show "c \<in> ?R"
        proof cases
          case 1
          then show ?thesis using True Cons
            by (intro CollectI exI [of _ "Suc k"]) auto
        next
          case 2
          then show ?thesis by (intro CollectI exI [of _ 0]) auto
        qed
      next
        fix c assume "c \<in> ?R"
        then obtain k where k: "c = (i + k, drop k rest)" "lo \<le> k" "k \<le> Suc hi"
            "k \<le> length rest" "list_all (\<lambda>c. in_ranges c rs) (take k rest)"
          by auto
        show "c \<in> ?L"
        proof (cases k)
          case 0
          then show ?thesis using k by auto
        next
          case (Suc j)
          then have "c = (Suc i + j, drop j xs)" "lo - 1 \<le> j" "j \<le> hi" "j \<le> length xs"
              "list_all (\<lambda>c. in_ranges c rs) (take j xs)"
            using k Cons by auto
          then show ?thesis by blast
        qed
      qed
      finally show ?thesis .
    qed
  qed
qed

lemma rmatch_repeat_once_or_twice:
  "set (rmatch_repeat f (Suc 0) (Suc (Suc 0)) cur) = (\<Union>c \<in> set (f cur). insert c (set (f c)))"
  by auto

text \<open>One or two groups of three or four characters of the class: 3, 4, 6, 7 or 8 of them.\<close>

lemma hex_groups:
  "set (rmatch (Repeat (Repeat (CharSet rs) 3 4) 1 2) (i, rest)) =
     {(i + k, drop k rest) | k. k \<in> {3, 4, 6, 7, 8} \<and> k \<le> length rest
        \<and> list_all (\<lambda>c. in_ranges c rs) (take k rest)}"
  (is "?L = ?R")
proof (rule set_eqI, rule iffI)
  fix c assume "c \<in> ?L"
  then obtain c1 where c1: "c1 \<in> set (rmatch_repeat (rmatch (CharSet rs)) 3 4 (i, rest))"
      and c: "c = c1 \<or> c \<in> set (rmatch_repeat (rmatch (CharSet rs)) 3 4 c1)"
    by (auto simp: rmatch_repeat_once_or_twice numeral_2_eq_2)
  from c1 obtain k1 where k1: "c1 = (i + k1, drop k1 rest)" "3 \<le> k1" "k1 \<le> 4"
      "k1 \<le> length rest" "list_all (\<lambda>c. in_ranges c rs) (take k1 rest)"
    unfolding rmatch_repeat_CharSet by blast
  from c show "c \<in> ?R"
  proof
    assume "c = c1"
    moreover have "k1 \<in> {3, 4, 6, 7, 8}" using k1(2,3) by auto
    ultimately show ?thesis using k1 by blast
  next
    assume "c \<in> set (rmatch_repeat (rmatch (CharSet rs)) 3 4 c1)"
    then obtain k2 where k2: "c = (i + k1 + k2, drop k2 (drop k1 rest))" "3 \<le> k2" "k2 \<le> 4"
        "k2 \<le> length (drop k1 rest)" "list_all (\<lambda>c. in_ranges c rs) (take k2 (drop k1 rest))"
      unfolding k1(1) rmatch_repeat_CharSet by blast
    have "k1 + k2 \<in> {3, 4, 6, 7, 8}" using k1(2,3) k2(2,3) by auto
    moreover have "c = (i + (k1 + k2), drop (k1 + k2) rest)"
      using k2(1) by (simp add: add.commute)
    moreover have "k1 + k2 \<le> length rest" using k1(4) k2(4) by simp
    moreover have "list_all (\<lambda>c. in_ranges c rs) (take (k1 + k2) rest)"
      using k1(5) k2(5) by (simp add: take_add)
    ultimately show ?thesis by blast
  qed
next
  fix c assume "c \<in> ?R"
  then obtain k where k: "c = (i + k, drop k rest)" "k \<in> {3, 4, 6, 7, 8}" "k \<le> length rest"
      "list_all (\<lambda>c. in_ranges c rs) (take k rest)"
    by blast
  have twice: "c \<in> ?L"
    if "k = k1 + k2" "3 \<le> k1" "k1 \<le> 4" "3 \<le> k2" "k2 \<le> 4" for k1 k2
  proof -
    have h: "list_all (\<lambda>c. in_ranges c rs) (take k1 rest)"
        "list_all (\<lambda>c. in_ranges c rs) (take k2 (drop k1 rest))"
      using k(4) that(1) by (simp_all add: take_add)
    have "(i + k1, drop k1 rest) \<in> set (rmatch_repeat (rmatch (CharSet rs)) 3 4 (i, rest))"
      unfolding rmatch_repeat_CharSet using h(1) that k(3) by auto
    moreover have "c \<in> set (rmatch_repeat (rmatch (CharSet rs)) 3 4 (i + k1, drop k1 rest))"
      unfolding rmatch_repeat_CharSet using h(2) that k(1,3)
      by (intro CollectI exI [of _ k2]) (simp add: add.commute)
    ultimately show ?thesis
      by (auto simp: rmatch_repeat_once_or_twice numeral_2_eq_2)
  qed
  have once: "c \<in> ?L" if "3 \<le> k" "k \<le> 4"
  proof -
    have "c \<in> set (rmatch_repeat (rmatch (CharSet rs)) 3 4 (i, rest))"
      unfolding rmatch_repeat_CharSet using k that by auto
    then show ?thesis
      by (auto simp: rmatch_repeat_once_or_twice numeral_2_eq_2)
  qed
  from k(2) consider "k = 3" | "k = 4" | "k = 6" | "k = 7" | "k = 8" by auto
  then show "c \<in> ?L"
  proof cases
    case 1 then show ?thesis using once by simp
  next
    case 2 then show ?thesis using once by simp
  next
    case 3 then show ?thesis using twice [of 3 3] by simp
  next
    case 4 then show ?thesis using twice [of 4 3] by simp
  next
    case 5 then show ?thesis using twice [of 4 4] by simp
  qed
qed

lemma ex_image_set: "(\<exists>c \<in> {f k | k. P k}. Q c) \<longleftrightarrow> (\<exists>k. P k \<and> Q (f k))"
  by blast

lemma rmatch_Eol_nonempty: "rmatch Eol (i, rest) \<noteq> [] \<longleftrightarrow> rest = [] \<or> rest = [CHR 0x0A]"
  by simp

text \<open>
  What the pattern accepts: \<open>#\<close>, then 3, 4, 6, 7 or 8 hexadecimal digits, then nothing or
  one newline.
\<close>

lemma validate_hex_color_accepts:
  "validate_hex_color s \<longleftrightarrow>
     (\<exists>ds. (s = CHR ''#'' # ds \<or> s = CHR ''#'' # ds @ [CHR 0x0A])
        \<and> list_all hexdigit ds \<and> length ds \<in> {3, 4, 6, 7, 8})"
  (is "?L \<longleftrightarrow> ?R")
proof -
  let ?G = "Repeat (Repeat (CharSet HEX_DIGIT) 3 4) 1 2"
  have nonempty: "?L \<longleftrightarrow> rmatch HEX_COLOR_PATTERN (0, s) \<noteq> []"
    by (auto simp: validate_hex_color_def re_match_def split: list.splits)
  show ?thesis
  proof (cases s)
    case Nil
    then show ?thesis unfolding nonempty by (simp add: HEX_COLOR_PATTERN_def)
  next
    case (Cons x xs)
    show ?thesis
    proof (cases "x = CHR ''#''")
      case False
      then show ?thesis unfolding nonempty using Cons by (simp add: HEX_COLOR_PATTERN_def)
    next
      case True
      have "rmatch HEX_COLOR_PATTERN (0, s) = concat (map (rmatch Eol) (rmatch ?G (Suc 0, xs)))"
        using True Cons by (simp add: HEX_COLOR_PATTERN_def)
      then have "?L \<longleftrightarrow> (\<exists>c \<in> set (rmatch ?G (Suc 0, xs)). rmatch Eol c \<noteq> [])"
        unfolding nonempty by auto
      also have "\<dots> \<longleftrightarrow> (\<exists>k. k \<in> {3, 4, 6, 7, 8} \<and> k \<le> length xs
           \<and> list_all hexdigit (take k xs) \<and> (drop k xs = [] \<or> drop k xs = [CHR 0x0A]))"
        unfolding hex_groups hexdigit_def ex_image_set rmatch_Eol_nonempty
        by (simp only: conj_assoc)
      also have "\<dots> \<longleftrightarrow> ?R"
      proof
        assume "\<exists>k. k \<in> {3, 4, 6, 7, 8} \<and> k \<le> length xs
           \<and> list_all hexdigit (take k xs) \<and> (drop k xs = [] \<or> drop k xs = [CHR 0x0A])"
        then obtain k where k: "k \<in> {3, 4, 6, 7, 8}" "k \<le> length xs"
            "list_all hexdigit (take k xs)" "drop k xs = [] \<or> drop k xs = [CHR 0x0A]"
          by blast
        have "xs = take k xs @ drop k xs" by simp
        with k(4) have "s = CHR ''#'' # take k xs \<or> s = CHR ''#'' # take k xs @ [CHR 0x0A]"
          using True Cons by (metis append_Nil2)
        moreover have "length (take k xs) \<in> {3, 4, 6, 7, 8}" using k(1,2) by (simp add: min_def)
        ultimately show ?R using k(3) by blast
      next
        assume ?R
        then obtain ds where ds: "s = CHR ''#'' # ds \<or> s = CHR ''#'' # ds @ [CHR 0x0A]"
            "list_all hexdigit ds" "length ds \<in> {3, 4, 6, 7, 8}"
          by blast
        from ds(1) have "xs = ds \<or> xs = ds @ [CHR 0x0A]" using Cons by auto
        then have "length ds \<le> length xs" "take (length ds) xs = ds"
            "drop (length ds) xs = [] \<or> drop (length ds) xs = [CHR 0x0A]"
          by auto
        then show "\<exists>k. k \<in> {3, 4, 6, 7, 8} \<and> k \<le> length xs
           \<and> list_all hexdigit (take k xs) \<and> (drop k xs = [] \<or> drop k xs = [CHR 0x0A])"
          using ds(2,3) by (intro exI [of _ "length ds"]) simp
      qed
      finally show ?thesis .
    qed
  qed
qed

text \<open>
  C2 asks that \<open>validate_hex_color\<close> accept exactly the strings made of \<open>#\<close> and 3, 4, 6 or
  8 hexadecimal digits. The examples the specification lists behave as it says, but the
  pattern also matches \<open>#\<close> followed by seven digits (a group of four and a group of
  three), and a valid colour followed by one newline.
\<close>

theorem validate_hex_color_seven_digits:
  "validate_hex_color ''#1234567''
   \<and> validate_hex_color (''#fff'' @ [CHR 0x0A])
   \<and> validate_hex_color ''#fff'' \<and> validate_hex_color ''#ffff''
   \<and> validate_hex_color ''#ffffff'' \<and> validate_hex_color ''#ffffffff''
   \<and> \<not> validate_hex_color ''fff'' \<and> \<not> validate_hex_color ''#ff''
   \<and> \<not> validate_hex_color ''#gggggg''"
  by code_simp

section \<open>Properties of the cache check and of the renderer\<close>

lemma resolve_append:
  "resolve n (p @ q) = (case resolve n p of None \<Rightarrow> None | Some m \<Rightarrow> resolve m q)"
  by (induction n p rule: resolve.induct) (auto split: option.splits)

lemma is_file_child:
  assumes "resolve fs p = Some (Dir es)"
  shows "is_file fs (p @ [n]) \<longleftrightarrow> (\<exists>c. map_of es n = Some (File c))"
  using assms by (auto simp: is_file_def resolve_append split: option.splits node.splits)

lemma name_child: "name (p @ [n]) = n"
  by (simp add: name_def)

lemma listed_file:
  assumes "resolve fs p = Some (Dir es)"
  shows "nm \<in> set (map name (filter (is_file fs) (map (\<lambda>n. p @ [n]) (map fst es))))
         \<longleftrightarrow> (\<exists>c. map_of es nm = Some (File c))"
proof
  assume "nm \<in> set (map name (filter (is_file fs) (map (\<lambda>n. p @ [n]) (map fst es))))"
  then obtain n where "n \<in> fst ` set es" "is_file fs (p @ [n])" "name (p @ [n]) = nm"
    by auto
  then show "\<exists>c. map_of es nm = Some (File c)"
    using is_file_child [OF assms] by (simp add: name_child)
next
  assume "\<exists>c. map_of es nm = Some (File c)"
  then obtain c where c: "map_of es nm = Some (File c)" ..
  then have "nm \<in> fst ` set es" by (metis map_of_eq_None_iff option.distinct(1))
  moreover have "is_file fs (p @ [nm])" using c is_file_child [OF assms] by blast
  ultimately show "nm \<in> set (map name (filter (is_file fs) (map (\<lambda>n. p @ [n]) (map fst es))))"
    by (auto simp: name_child intro!: image_eqI [where x = "p @ [nm]"])
qed

lemma placeholder_exists_Dir:
  assumes "resolve fs save_root = Some (Dir es)"
  shows "placeholder_exists width height save_root fs
         = Inr (\<exists>c. map_of es (str_int width @ ''_x_'' @ str_int height @ ''.jpg'') = Some (File c))"
  using assms listed_file [OF assms]
  by (simp add: placeholder_exists_def is_dir_def iterdir_def)

lemma placeholder_exists_not_Dir:
  assumes "\<nexists>es. resolve fs save_root = Some (Dir es)"
  shows "placeholder_exists width height save_root fs = Inr False"
  using assms by (auto simp: placeholder_exists_def is_dir_def split: option.splits node.splits)

lemma placeholder_exists_resolve:
  "placeholder_exists width height save_root fs
     = Inr ((\<exists>es. resolve fs save_root = Some (Dir es))
          \<and> (\<exists>c. resolve fs (save_root @ [str_int width @ ''_x_'' @ str_int height @ ''.jpg''])
                   = Some (File c)))"
proof (cases "\<exists>es. resolve fs save_root = Some (Dir es)")
  case True
  then obtain es where es: "resolve fs save_root = Some (Dir es)" ..
  show ?thesis
    using es by (simp add: placeholder_exists_Dir [OF es] resolve_append split: option.splits)
next
  case False
  then show ?thesis
    by (simp add: placeholder_exists_not_Dir)
qed

text \<open>
  C8: \<open>placeholder_exists\<close> never raises; it returns true exactly when \<open>save_root\<close> is
  a directory that holds a regular file named \<open>{width}_x_{height}.jpg\<close>, and false when
  \<open>save_root\<close> does not exist.
\<close>

theorem placeholder_exists_iff:
  "placeholder_exists width height save_root fs
     = Inr ((\<exists>es. resolve fs save_root = Some (Dir es))
          \<and> (\<exists>c. resolve fs (save_root @ [str_int width @ ''_x_'' @ str_int height @ ''.jpg''])
                   = Some (File c)))
   \<and> (resolve fs save_root = None \<longrightarrow> placeholder_exists width height save_root fs = Inr False)"
proof
  show "placeholder_exists width height save_root fs
     = Inr ((\<exists>es. resolve fs save_root = Some (Dir es))
          \<and> (\<exists>c. resolve fs (save_root @ [str_int width @ ''_x_'' @ str_int height @ ''.jpg''])
                   = Some (File c)))"
    by (rule placeholder_exists_resolve)
  show "resolve fs save_root = None \<longrightarrow> placeholder_exists width height save_root fs = Inr False"
    by (simp add: placeholder_exists_not_Dir)
qed

theorem placeholder_exists_iff_witness:
  "resolve (Dir []) [''out''] = None
   \<and> placeholder_exists 800 600 [''out''] (Dir []) = Inr False
   \<and> placeholder_exists 800 600 [''out''] (Dir [(''out'', Dir [(''800_x_600.jpg'', File ''jpeg'')])])
       = Inr True
   \<and> placeholder_exists 800 600 [''out''] (Dir [(''out'', Dir [(''800_x_600.jpg'', Dir [])])])
       = Inr False"
  using placeholder_exists_iff [of 800 600 "[''out'']" "Dir []"]
    placeholder_exists_iff [of 800 600 "[''out'']" "Dir [(''out'', Dir [(''800_x_600.jpg'', File ''jpeg'')])]"]
    placeholder_exists_iff [of 800 600 "[''out'']" "Dir [(''out'', Dir [(''800_x_600.jpg'', Dir [])])]"]
  by (simp add: str_int_def str_nat.simps)

text \<open>
  C7: the blur pass returns the generator it was given, whatever the blur computes, so
  \<open>start\<close> saves the bitmap exactly as \<open>_setup_cross\<close> left it.
\<close>

theorem smoothen_image_discards_blur:
  "smoothen_image pil self = (case gen_image self of None \<Rightarrow> Inl AttributeError | Some im \<Rightarrow> Inr self)
   \<and> start pil self w =
       (case setup_frame pil self of
          Inl e \<Rightarrow> (Inl e, w)
        | Inr self1 \<Rightarrow>
            (case setup_cross pil self1 of
               Inl e \<Rightarrow> (Inl e, w)
             | Inr self2 \<Rightarrow> save_image pil self2 w))"
  by (auto simp: smoothen_image_def start_def setup_cross_def setup_frame_def Let_def
      split: sum.splits option.splits)

theorem smoothen_image_discards_blur_witness:
  "start \<lparr>new_pixels = (\<lambda>wh c. ''n''), line_pixels = (\<lambda>p xy c w. p @ ''l''),
           gaussian_blur = (\<lambda>r p. p @ ''b''), jpeg_bytes = (\<lambda>wh p. p)\<rparr>
        (ImageGenerator_init 200 100 0x96b08a [''placeholders''])
        \<lparr>disk = Dir [(''placeholders'', Dir [])], logged = []\<rparr>
     = (Inr \<lparr>gen_width = 200, gen_height = 100,
             gen_color = \<lparr>rgb_r = 0x96, rgb_g = 0xb0, rgb_b = 0x8a\<rparr>,
             gen_image = Some \<lparr>im_width = 200, im_height = 100, im_pixels = ''nll''\<rparr>,
             gen_save_root = [''placeholders'']\<rparr>,
        \<lparr>disk = Dir [(''placeholders'', Dir [(''200_x_100.jpg'', File ''nll'')])],
         logged = [(INFO, ''Saved placeholder image @ placeholders/200_x_100.jpg'')]\<rparr>)"
proof -
  let ?pil = "\<lparr>new_pixels = (\<lambda>wh c. ''n''), line_pixels = (\<lambda>p xy c w. p @ ''l''),
            gaussian_blur = (\<lambda>r p. p @ ''b''), jpeg_bytes = (\<lambda>wh p. p)\<rparr>"
  let ?g = "ImageGenerator_init 200 100 0x96b08a [''placeholders''] :: string ImageGenerator"
  let ?empty = "\<lparr>disk = Dir [(''placeholders'', Dir [])], logged = []\<rparr>"
  have s200: "str_int 200 = ''200''" and s100: "str_int 100 = ''100''"
    by (simp_all add: str_int_def str_nat.simps)
  have c: "gen_color ?g = \<lparr>rgb_r = 0x96, rgb_g = 0xb0, rgb_b = 0x8a\<rparr>"
    by code_simp
  from smoothen_image_discards_blur [of ?pil ?g ?empty]
  have "start ?pil ?g ?empty =
       (case setup_frame ?pil ?g of
          Inl e \<Rightarrow> (Inl e, ?empty)
        | Inr self1 \<Rightarrow>
            (case setup_cross ?pil self1 of
               Inl e \<Rightarrow> (Inl e, ?empty)
             | Inr self2 \<Rightarrow> save_image ?pil self2 ?empty))"
    by blast
  then show ?thesis
    using c
    by (simp add: setup_frame_def Image_new_def setup_cross_def draw_line_def save_image_def
        jpeg_refuses_def Let_def logger_info_def as_posix_def s200 s100 ImageGenerator_init_def
        inverted_color_def)
qed

section \<open>Properties of the entry point\<close>

lemma mkdir_p_existing:
  "resolve n p = Some (Dir es) \<Longrightarrow> mkdir_p n p = Inr n"
proof (induction n p arbitrary: es rule: mkdir_p.induct)
  case (4 ds x xs)
  from "4.prems" obtain m where m: "map_of ds x = Some m" "resolve m xs = Some (Dir es)"
    by (auto split: option.splits)
  have "mkdir_p m xs = Inr m"
    using "4.IH" [of es] m by simp
  then show ?case using m by (simp add: update_triv)
qed simp_all

lemma write_file_resolve:
  "write_file n p c = Inr n' \<Longrightarrow> resolve n' p = Some (File c)"
proof (induction n p c arbitrary: n' rule: write_file.induct)
  case (4 es x xs c)
  show ?case
  proof (cases "map_of es x")
    case None
    with "4.prems" show ?thesis
      by (auto simp: update_conv' split: if_splits)
  next
    case (Some m)
    with "4.prems" obtain m' where m': "write_file m xs c = Inr m'" "n' = Dir (AList.update x m' es)"
      by (auto split: sum.splits)
    have "resolve m' xs = Some (File c)"
      using "4.IH" [OF Some m'(1)] .
    then show ?thesis using m'(2) by (simp add: update_conv')
  qed
qed simp_all

lemma setup_frame_image:
  assumes "setup_frame pil self = Inr self1"
  shows "\<exists>im. gen_image self1 = Some im \<and> im_width im = gen_width self
           \<and> im_height im = gen_height self \<and> gen_save_root self1 = gen_save_root self"
  using assms by (auto simp: setup_frame_def Image_new_def split: if_splits)

lemma setup_cross_image:
  assumes "setup_cross pil self1 = Inr self2" and "gen_image self1 = Some im"
  shows "\<exists>im2. gen_image self2 = Some im2 \<and> im_width im2 = im_width im
           \<and> im_height im2 = im_height im \<and> gen_save_root self2 = gen_save_root self1"
  using assms by (auto simp: setup_cross_def draw_line_def Let_def)

lemma smoothen_image_same:
  assumes "smoothen_image pil self2 = Inr self3"
  shows "self3 = self2"
  using assms by (auto simp: smoothen_image_def split: option.splits)

lemma save_image_file:
  assumes "save_image pil self w0 = (Inr generator, w1)" and "gen_image self = Some im"
  shows "resolve (disk w1)
           (gen_save_root self @ [str_int (im_width im) @ ''_x_'' @ str_int (im_height im) @ ''.jpg''])
         = Some (File (jpeg_bytes pil (im_width im, im_height im) (im_pixels im)))"
proof -
  let ?p = "gen_save_root self @ [str_int (im_width im) @ ''_x_'' @ str_int (im_height im) @ ''.jpg'']"
  let ?c = "jpeg_bytes pil (im_width im, im_height im) (im_pixels im)"
  from assms obtain opened fs' where wr: "write_file opened ?p ?c = Inr fs'" and w1: "disk w1 = fs'"
    by (auto simp: save_image_def Let_def logger_info_def split: sum.splits option.splits)
  from write_file_resolve [OF wr] w1 show ?thesis by simp
qed

lemma start_success:
  assumes "start pil (ImageGenerator_init width height color root) w0 = (Inr generator, w1)"
  shows "\<exists>c. resolve (disk w1) (root @ [str_int width @ ''_x_'' @ str_int height @ ''.jpg''])
               = Some (File c)"
proof -
  let ?g = "ImageGenerator_init width height color root :: 'a ImageGenerator"
  from assms obtain self1 where s1: "setup_frame pil ?g = Inr self1"
    by (auto simp: start_def split: sum.splits)
  from assms s1 obtain self2 where s2: "setup_cross pil self1 = Inr self2"
    by (auto simp: start_def split: sum.splits)
  from assms s1 s2 obtain self3 where s3: "smoothen_image pil self2 = Inr self3"
    by (auto simp: start_def split: sum.splits)
  from assms s1 s2 s3 have sv: "save_image pil self2 w0 = (Inr generator, w1)"
    using smoothen_image_same [OF s3] by (simp add: start_def)
  from setup_frame_image [OF s1] obtain im where im: "gen_image self1 = Some im"
      "im_width im = width" "im_height im = height" "gen_save_root self1 = root"
    by (auto simp: ImageGenerator_init_def)
  from setup_cross_image [OF s2 im(1)] obtain im2 where im2: "gen_image self2 = Some im2"
      "im_width im2 = width" "im_height im2 = height" "gen_save_root self2 = root"
    using im by auto
  from save_image_file [OF sv im2(1)] show ?thesis
    using im2 by auto
qed

lemma resolve_child:
  "resolve n [x] = Some m \<longleftrightarrow> (\<exists>es. n = Dir es \<and> map_of es x = Some m)"
  by (cases n) (auto split: option.splits)

lemma main_cache_hit_aux:
  assumes "match_option args = Resolved width height"
    and "validate_hex_color (args_color args)"
    and "resolve (disk w) ((args_out args @ [''placeholders''])
           @ [str_int width @ ''_x_'' @ str_int height @ ''.jpg'']) = Some (File c)"
  shows "main pil args w =
     (Inr None,
      logger_info (''Placeholder '' @ str_int width @ ''x'' @ str_int height
                     @ '' already exists in placeholders directory'') w)"
proof -
  let ?root = "args_out args @ [''placeholders'']"
  let ?file = "str_int width @ ''_x_'' @ str_int height @ ''.jpg''"
  from assms(3) obtain es where es: "resolve (disk w) ?root = Some (Dir es)"
      and f: "map_of es ?file = Some (File c)"
    unfolding resolve_append [of "disk w" ?root]
    by (auto simp: resolve_child split: option.splits)
  have mk: "mkdir_p (disk w) ?root = Inr (disk w)"
    using es by (rule mkdir_p_existing)
  have ex: "placeholder_exists width height ?root (disk w) = Inr True"
    using f by (simp add: placeholder_exists_Dir [OF es])
  show ?thesis
    using assms(1,2) mk ex by (simp add: main_def)
qed

lemma main_success_file:
  assumes "match_option args = Resolved width height"
    and "main pil args w = (Inr None, w1)"
  shows "\<exists>c. resolve (disk w1) ((args_out args @ [''placeholders''])
           @ [str_int width @ ''_x_'' @ str_int height @ ''.jpg'']) = Some (File c)"
proof -
  let ?root = "args_out args @ [''placeholders'']"
  from assms obtain fs1 where mk: "mkdir_p (disk w) ?root = Inr fs1"
    by (auto simp: main_def split: if_splits sum.splits)
  from assms mk obtain hit where hit: "placeholder_exists width height ?root fs1 = Inr hit"
    by (auto simp: main_def split: if_splits sum.splits)
  show ?thesis
  proof (cases hit)
    case True
    then have w1: "disk w1 = fs1"
      using assms mk hit by (auto simp: main_def logger_info_def split: if_splits)
    from True hit placeholder_exists_resolve [of width height ?root fs1]
    show ?thesis unfolding w1 by simp
  next
    case False
    then obtain color generator where
      "start pil (ImageGenerator_init width height color ?root) (w\<lparr>disk := fs1\<rparr>) = (Inr generator, w1)"
      using assms mk hit by (auto simp: main_def split: if_splits sum.splits prod.splits)
    then show ?thesis by (rule start_success)
  qed
qed

lemma match_option_color: "match_option (args\<lparr>args_color := c\<rparr>) = match_option args"
  by (simp add: match_option_def cong: sum.case_cong)

text \<open>
  C5: once width, height and colour have passed validation, a file named
  \<open>{width}_x_{height}.jpg\<close> in the placeholders directory makes \<open>main\<close> return \<open>None\<close>
  with the file system unchanged and one informational record logged, whatever the
  colour; and after a run of \<open>main\<close> that returned \<open>None\<close>, a second run with the same
  dimensions and any valid colour does the same.
\<close>

theorem main_cached_noop:
  assumes "match_option args = Resolved width height"
    and "validate_hex_color (args_color args)"
  shows "(\<forall>c. resolve (disk w) ((args_out args @ [''placeholders''])
                  @ [str_int width @ ''_x_'' @ str_int height @ ''.jpg'']) = Some (File c)
            \<longrightarrow> main pil args w =
                  (Inr None,
                   w\<lparr>logged := logged w
                        @ [(INFO, ''Placeholder '' @ str_int width @ ''x'' @ str_int height
                                    @ '' already exists in placeholders directory'')]\<rparr>))
       \<and> (\<forall>w1 color2. main pil args w = (Inr None, w1) \<and> validate_hex_color color2
            \<longrightarrow> main pil (args\<lparr>args_color := color2\<rparr>) w1 =
                  (Inr None,
                   w1\<lparr>logged := logged w1
                        @ [(INFO, ''Placeholder '' @ str_int width @ ''x'' @ str_int height
                                    @ '' already exists in placeholders directory'')]\<rparr>))"
proof (intro conjI allI impI)
  fix c
  assume "resolve (disk w) ((args_out args @ [''placeholders''])
            @ [str_int width @ ''_x_'' @ str_int height @ ''.jpg'']) = Some (File c)"
  with assms have "main pil args w =
      (Inr None,
       logger_info (''Placeholder '' @ str_int width @ ''x'' @ str_int height
                      @ '' already exists in placeholders directory'') w)"
    by (rule main_cache_hit_aux)
  then show "main pil args w =
      (Inr None,
       w\<lparr>logged := logged w
            @ [(INFO, ''Placeholder '' @ str_int width @ ''x'' @ str_int height
                        @ '' already exists in placeholders directory'')]\<rparr>)"
    by (simp add: logger_info_def)
next
  fix w1 color2
  assume a: "main pil args w = (Inr None, w1) \<and> validate_hex_color color2"
  then obtain c where c: "resolve (disk w1) ((args_out args @ [''placeholders''])
           @ [str_int width @ ''_x_'' @ str_int height @ ''.jpg'']) = Some (File c)"
    using main_success_file [OF assms(1)] by blast
  show "main pil (args\<lparr>args_color := color2\<rparr>) w1 =
      (Inr None,
       w1\<lparr>logged := logged w1
            @ [(INFO, ''Placeholder '' @ str_int width @ ''x'' @ str_int height
                        @ '' already exists in placeholders directory'')]\<rparr>)"
    using main_cache_hit_aux [of "args\<lparr>args_color := color2\<rparr>" width height w1 c pil]
      assms(1) a c
    by (simp add: match_option_color logger_info_def)
qed

theorem main_cached_noop_witness:
  "match_option \<lparr>args_option = ''size'', args_width = Some 200, args_height = Some 100,
        args_ratio = None, args_color = ''#96b08a'', args_out = [''out'']\<rparr> = Resolved 200 100
   \<and> validate_hex_color ''#96b08a''
   \<and> resolve (Dir [(''out'', Dir [(''placeholders'', Dir [(''200_x_100.jpg'', File ''jpeg'')])])])
         ([''out''] @ [''placeholders''] @ [str_int 200 @ ''_x_'' @ str_int 100 @ ''.jpg''])
       = Some (File ''jpeg'')
   \<and> main \<lparr>new_pixels = (\<lambda>wh c. ''n''), line_pixels = (\<lambda>p xy c w. p @ ''l''),
            gaussian_blur = (\<lambda>r p. p @ ''b''), jpeg_bytes = (\<lambda>wh p. p)\<rparr>
        \<lparr>args_option = ''size'', args_width = Some 200, args_height = Some 100,
         args_ratio = None, args_color = ''#96b08a'', args_out = [''out'']\<rparr>
        \<lparr>disk = Dir [(''out'', Dir [(''placeholders'', Dir [(''200_x_100.jpg'', File ''jpeg'')])])],
         logged = []\<rparr>
       = (Inr None,
          \<lparr>disk = Dir [(''out'', Dir [(''placeholders'', Dir [(''200_x_100.jpg'', File ''jpeg'')])])],
           logged = [(INFO, ''Placeholder 200x100 already exists in placeholders directory'')]\<rparr>)
   \<and> main \<lparr>new_pixels = (\<lambda>wh c. ''n''), line_pixels = (\<lambda>p xy c w. p @ ''l''),
            gaussian_blur = (\<lambda>r p. p @ ''b''), jpeg_bytes = (\<lambda>wh p. p)\<rparr>
        \<lparr>args_option = ''size'', args_width = Some 200, args_height = Some 100,
         args_ratio = None, args_color = ''#96b08a'', args_out = [''out'']\<rparr>
        \<lparr>disk = Dir [], logged = []\<rparr>
       = (Inr None,
          \<lparr>disk = Dir [(''out'', Dir [(''placeholders'', Dir [(''200_x_100.jpg'', File ''nll'')])])],
           logged = [(INFO, ''Saved placeholder image @ out/placeholders/200_x_100.jpg'')]\<rparr>)
   \<and> validate_hex_color ''#fff''
   \<and> main \<lparr>new_pixels = (\<lambda>wh c. ''n''), line_pixels = (\<lambda>p xy c w. p @ ''l''),
            gaussian_blur = (\<lambda>r p. p @ ''b''), jpeg_bytes = (\<lambda>wh p. p)\<rparr>
        \<lparr>args_option = ''size'', args_width = Some 200, args_height = Some 100,
         args_ratio = None, args_color = ''#fff'', args_out = [''out'']\<rparr>
        \<lparr>disk = Dir [(''out'', Dir [(''placeholders'', Dir [(''200_x_100.jpg'', File ''nll'')])])],
         logged = [(INFO, ''Saved placeholder image @ out/placeholders/200_x_100.jpg'')]\<rparr>
       = (Inr None,
          \<lparr>disk = Dir [(''out'', Dir [(''placeholders'', Dir [(''200_x_100.jpg'', File ''nll'')])])],
           logged = [(INFO, ''Saved placeholder image @ out/placeholders/200_x_100.jpg''),
                     (INFO, ''Placeholder 200x100 already exists in placeholders directory'')]\<rparr>)"
proof -
  let ?a = "\<lparr>args_option = ''size'', args_width = Some 200, args_height = Some 100,
        args_ratio = None, args_color = ''#96b08a'', args_out = [''out'']\<rparr>"
  let ?pil = "\<lparr>new_pixels = (\<lambda>wh c. ''n''), line_pixels = (\<lambda>p xy c w. p @ ''l''),
            gaussian_blur = (\<lambda>r p. p @ ''b''), jpeg_bytes = (\<lambda>wh p. p)\<rparr>"
  let ?cached = "\<lparr>disk = Dir [(''out'', Dir [(''placeholders'', Dir [(''200_x_100.jpg'', File ''jpeg'')])])],
         logged = []\<rparr>"
  let ?empty = "\<lparr>disk = Dir [], logged = []\<rparr>"
  let ?after = "\<lparr>disk = Dir [(''out'', Dir [(''placeholders'', Dir [(''200_x_100.jpg'', File ''nll'')])])],
         logged = [(INFO, ''Saved placeholder image @ out/placeholders/200_x_100.jpg'')]\<rparr>"
  have s200: "str_int 200 = ''200''" and s100: "str_int 100 = ''100''"
    by (simp_all add: str_int_def str_nat.simps)
  have m: "match_option ?a = Resolved 200 100"
    by (simp add: match_option_def truthy_def validate_range_def BOUNDS_width BOUNDS_height)
  have v: "validate_hex_color (args_color ?a)" by code_simp
  have v2: "validate_hex_color ''#fff''" by code_simp
  have r: "resolve (disk ?cached) ((args_out ?a @ [''placeholders''])
             @ [str_int 200 @ ''_x_'' @ str_int 100 @ ''.jpg'']) = Some (File ''jpeg'')"
    by code_simp
  have first: "main ?pil ?a ?empty = (Inr None, ?after)"
    by code_simp
  note noop = main_cached_noop [OF m v]
  from noop [of ?cached ?pil] r
  have hit: "main ?pil ?a ?cached =
      (Inr None, ?cached\<lparr>logged := logged ?cached
         @ [(INFO, ''Placeholder '' @ str_int 200 @ ''x'' @ str_int 100
                     @ '' already exists in placeholders directory'')]\<rparr>)"
    by blast
  from noop [of ?empty ?pil] first v2
  have again: "main ?pil (?a\<lparr>args_color := ''#fff''\<rparr>) ?after =
      (Inr None, ?after\<lparr>logged := logged ?after
         @ [(INFO, ''Placeholder '' @ str_int 200 @ ''x'' @ str_int 100
                     @ '' already exists in placeholders directory'')]\<rparr>)"
    by blast
  show ?thesis
    using m v v2 r first hit again by (simp add: logger_info_def s200 s100)
qed

lemma validate_ratio_two:
  assumes "validate_ratio (Some p)"
  shows "\<exists>a b. p = [a, b]"
proof -
  from assms have "length p = 2"
    by (simp add: validate_ratio_def split: if_splits)
  then show ?thesis
    by (cases p; cases "tl p") auto
qed

lemma match_option_not_Raised: "match_option args \<noteq> Raised e"
  by (simp add: match_option_def dimmentions_from_ratio_unfold Let_def split: sum.splits)

lemma main_returns_1:
  assumes "(\<exists>msg. match_option args = Rejected msg) \<or> \<not> validate_hex_color (args_color args)"
  shows "\<exists>msg. main pil args w = (Inr (Some 1), w\<lparr>logged := logged w @ [(ERROR, msg)]\<rparr>)"
proof (cases "match_option args")
  case (Rejected msg)
  then have "main pil args w = (Inr (Some 1), w\<lparr>logged := logged w @ [(ERROR, msg)]\<rparr>)"
    by (simp add: main_def logger_error_def)
  then show ?thesis ..
next
  case (Raised e)
  then show ?thesis by (simp add: match_option_not_Raised)
next
  case (Resolved width height)
  with assms have "\<not> validate_hex_color (args_color args)"
    by auto
  with Resolved
  have "main pil args w =
      (Inr (Some 1), w\<lparr>logged := logged w @ [(ERROR, ''Invalid color '' @ args_color args)]\<rparr>)"
    by (simp add: main_def logger_error_def)
  then show ?thesis ..
qed

lemma main_cli_returns_1:
  assumes "parse_args host argv = Inr ns"
    and "(\<exists>msg. match_option (namespace_args ns []) = Rejected msg)
         \<or> \<not> validate_hex_color (ns_color ns)"
  shows "\<exists>msg. main_cli host pil argv w
           = (Inr (Some 1), w\<lparr>logged := logged w @ [(ERROR, msg)]\<rparr>)"
proof (cases "ns_out ns")
  case (Some out)
  have m: "match_option (namespace_args ns out) = match_option (namespace_args ns [])"
    by (simp add: match_option_def namespace_args_def cong: sum.case_cong)
  have "\<exists>msg. main pil (namespace_args ns out) w
           = (Inr (Some 1), w\<lparr>logged := logged w @ [(ERROR, msg)]\<rparr>)"
    using assms(2) by (intro main_returns_1) (simp add: m, simp add: namespace_args_def)
  then show ?thesis
    using assms(1) Some by (simp add: main_cli_def)
next
  case None
  show ?thesis
  proof (cases "match_option (namespace_args ns [])")
    case (Rejected msg)
    then have "main_cli host pil argv w
        = (Inr (Some 1), w\<lparr>logged := logged w @ [(ERROR, msg)]\<rparr>)"
      using assms(1) None by (simp add: main_cli_def logger_error_def)
    then show ?thesis ..
  next
    case (Raised e)
    then show ?thesis by (simp add: match_option_not_Raised)
  next
    case (Resolved width height)
    with assms(2) have "\<not> validate_hex_color (ns_color ns)" by auto
    with Resolved have "main_cli host pil argv w
        = (Inr (Some 1), w\<lparr>logged := logged w @ [(ERROR, ''Invalid color '' @ ns_color ns)]\<rparr>)"
      using assms(1) None by (simp add: main_cli_def logger_error_def)
    then show ?thesis ..
  qed
qed

lemma dimensions_fail_Rejected:
  assumes "dimensions_fail ns"
  shows "\<exists>msg. match_option (namespace_args ns out) = Rejected msg"
proof (cases "ns_option ns")
  case SIZE
  with assms show ?thesis
    by (auto simp: dimensions_fail_def match_option_def namespace_args_def truthy_def
        validate_range_def BOUNDS_width BOUNDS_height split: option.splits)
next
  case RATIO
  have "\<not> validate_ratio (ns_ratio ns)"
  proof
    assume v: "validate_ratio (ns_ratio ns)"
    then obtain p where p: "ns_ratio ns = Some p"
      by (auto simp: validate_ratio_def split: option.splits)
    from v validate_ratio_two [of p] obtain a b where "p = [a, b]"
      unfolding p by blast
    with v p assms RATIO show False
      by (simp add: dimensions_fail_def validate_ratio_pair)
  qed
  with RATIO show ?thesis
    by (simp add: match_option_def namespace_args_def)
qed

lemma color_fails_not_validated:
  assumes "color_fails s"
  shows "\<not> validate_hex_color s"
proof
  assume "validate_hex_color s"
  then obtain ds where ds: "s = CHR ''#'' # ds \<or> s = CHR ''#'' # ds @ [CHR 0x0A]"
      "list_all hexdigit ds" "length ds \<in> {3, 4, 6, 7, 8}"
    unfolding validate_hex_color_accepts by blast
  from ds(1) show False
  proof
    assume s: "s = CHR ''#'' # ds"
    from ds(3) consider "length ds \<in> {3, 4, 6, 8}" | "length ds = 7" by auto
    then show False
    proof cases
      case 1
      with s ds(2) have "well_formed_color s"
        by (auto simp: well_formed_color_def hex_color_with_def)
      with assms show False by (simp add: color_fails_def)
    next
      case 2
      with s ds(2) have "further_form s"
        by (simp add: further_form_def hex_color_with_def)
      with assms show False by (simp add: color_fails_def)
    qed
  next
    assume s: "s = CHR ''#'' # ds @ [CHR 0x0A]"
    then have "butlast s = CHR ''#'' # ds" "last s = CHR 0x0A" "s \<noteq> []"
      by (simp_all add: butlast_append)
    with ds(2,3) have "further_form s"
      by (auto simp: further_form_def hex_color_with_def)
    with assms show False by (simp add: color_fails_def)
  qed
qed

lemma those_None: "those (map f xs) = None \<longleftrightarrow> list_ex (\<lambda>x. f x = None) xs"
  by (induction xs) (auto split: option.splits)

lemma DimmentionOptions_of_None:
  "DimmentionOptions_of v = None \<longleftrightarrow> v \<noteq> ''size'' \<and> v \<noteq> ''ratio''"
  by (simp add: DimmentionOptions_of_def)

lemma optional_int_None:
  "optional_int host v = None \<longleftrightarrow> (case v of None \<Rightarrow> False | Some s \<Rightarrow> str_to_int host s = None)"
  by (simp add: optional_int_def split: option.splits)

lemma optional_ints_None:
  "optional_ints host v = None
     \<longleftrightarrow> (case v of None \<Rightarrow> False | Some ss \<Rightarrow> list_ex (\<lambda>s. str_to_int host s = None) ss)"
  by (simp add: optional_ints_def those_None split: option.splits)

lemma refused_by_parser_iff:
  "refused_by_parser host raw \<longleftrightarrow>
     DimmentionOptions_of (raw_option raw) = None \<or> optional_int host (raw_width raw) = None
     \<or> optional_int host (raw_height raw) = None \<or> optional_ints host (raw_ratio raw) = None"
  unfolding refused_by_parser_def DimmentionOptions_of_None optional_int_None optional_ints_None
  by (rule refl)

lemma parse_args_refused:
  assumes "group_args host argv = Grouped raw" and "refused_by_parser host raw"
  shows "parse_args host argv = Inl (SystemExit 2)"
  using assms unfolding refused_by_parser_iff
  by (auto simp: parse_args_def split: option.splits)

lemma parse_args_accepted:
  assumes "group_args host argv = Grouped raw" and "\<not> refused_by_parser host raw"
  shows "\<exists>ns. parse_args host argv = Inr ns"
  using assms unfolding refused_by_parser_iff
  by (auto simp: parse_args_def split: option.splits)

text \<open>
  C6, as the specification states it: every invocation whose inputs fail validation makes
  the program return the status 1 after logging an error, with no file written. Three
  invocations behave otherwise. With a width of 10 \<open>main\<close> logs the error and returns 1,
  but the program calls \<open>main()\<close> without using the result and the process ends with
  status 0. The mode \<open>foo\<close> is refused by the argument parser: \<open>SystemExit(2)\<close> leaves \<open>main\<close>
  and nothing is logged. The colour \<open>#1234567\<close> is not a colour of 3, 4, 6 or 8 digits, and
  the file is rendered and written.
\<close>

theorem invalid_input_counterexample:
  "script sample_host sample_pil narrow_argv \<lparr>disk = Dir [], logged = []\<rparr>
     = (0, \<lparr>disk = Dir [(''app'', Dir [(''logs'', Dir [(''usage.log'', File [])])])],
            logged = [(ERROR, ''Invalid size 10x100'')]\<rparr>)
   \<and> main_cli sample_host sample_pil [''foo''] \<lparr>disk = Dir [], logged = []\<rparr>
       = (Inl (SystemExit 2), \<lparr>disk = Dir [], logged = []\<rparr>)
   \<and> \<not> well_formed_color ''#1234567''
   \<and> main_cli sample_host sample_pil seven_argv \<lparr>disk = Dir [], logged = []\<rparr>
       = (Inr None,
          \<lparr>disk = Dir [(''out'', Dir [(''placeholders'', Dir [(''200_x_100.jpg'', File ''nll'')])])],
           logged = [(INFO, ''Saved placeholder image @ out/placeholders/200_x_100.jpg'')]\<rparr>)"
  by code_simp

text \<open>
  C6, amended: for every command line that argparse matches against the declared
  arguments, a mode that is neither \<open>size\<close> nor \<open>ratio\<close> and a dimension or ratio component
  that is no integer literal end \<open>main\<close> in \<open>SystemExit(2)\<close> with nothing logged and nothing
  written, and every other command line is parsed; when the parsed values fail validation
  (a dimension missing, zero or outside 32 to 4000, a ratio that is absent or not exactly
  two components within 1 to 30, a colour that is neither \<open>#\<close> with 3, 4, 6 or 8
  hexadecimal digits nor one of the two further forms, seven digits or a final newline)
  \<open>main\<close> logs one error and returns the value 1, with the file system as it was, so that
  rendering and writing are reached only after every check has passed. The exit status of
  the process after \<open>main\<close> has returned 1 is left out of the statement.
\<close>

theorem main_cli_rejects_invalid_input:
  assumes "group_args host argv = Grouped raw"
  shows "(refused_by_parser host raw \<longrightarrow> main_cli host pil argv w = (Inl (SystemExit 2), w))
       \<and> (\<not> refused_by_parser host raw \<longrightarrow> (\<exists>ns. parse_args host argv = Inr ns))
       \<and> (\<forall>ns. parse_args host argv = Inr ns \<and> fails_validation ns
            \<longrightarrow> (\<exists>msg. main_cli host pil argv w
                        = (Inr (Some 1), w\<lparr>logged := logged w @ [(ERROR, msg)]\<rparr>)))"
proof (intro conjI allI impI)
  assume "refused_by_parser host raw"
  with assms have "parse_args host argv = Inl (SystemExit 2)"
    by (rule parse_args_refused)
  then show "main_cli host pil argv w = (Inl (SystemExit 2), w)"
    by (simp add: main_cli_def)
next
  assume "\<not> refused_by_parser host raw"
  with assms show "\<exists>ns. parse_args host argv = Inr ns"
    by (rule parse_args_accepted)
next
  fix ns
  assume a: "parse_args host argv = Inr ns \<and> fails_validation ns"
  then have "(\<exists>msg. match_option (namespace_args ns []) = Rejected msg)
         \<or> \<not> validate_hex_color (ns_color ns)"
    using dimensions_fail_Rejected [of ns "[]"] color_fails_not_validated [of "ns_color ns"]
    by (auto simp: fails_validation_def)
  with a show "\<exists>msg. main_cli host pil argv w
      = (Inr (Some 1), w\<lparr>logged := logged w @ [(ERROR, msg)]\<rparr>)"
    by (intro main_cli_returns_1) simp_all
qed

theorem main_cli_rejects_invalid_input_witness:
  "group_args sample_host [''foo'']
     = Grouped \<lparr>raw_option = ''foo'', raw_width = None, raw_height = None,
                raw_ratio = None, raw_color = None, raw_out = None\<rparr>
   \<and> refused_by_parser sample_host
        \<lparr>raw_option = ''foo'', raw_width = None, raw_height = None,
         raw_ratio = None, raw_color = None, raw_out = None\<rparr>
   \<and> main_cli sample_host sample_pil [''foo''] \<lparr>disk = Dir [], logged = []\<rparr>
       = (Inl (SystemExit 2), \<lparr>disk = Dir [], logged = []\<rparr>)
   \<and> group_args sample_host narrow_argv
       = Grouped \<lparr>raw_option = ''size'', raw_width = Some ''10'', raw_height = Some ''100'',
                  raw_ratio = None, raw_color = None, raw_out = Some (Some ''out'')\<rparr>
   \<and> \<not> refused_by_parser sample_host
          \<lparr>raw_option = ''size'', raw_width = Some ''10'', raw_height = Some ''100'',
           raw_ratio = None, raw_color = None, raw_out = Some (Some ''out'')\<rparr>
   \<and> parse_args sample_host narrow_argv
       = Inr \<lparr>ns_option = SIZE, ns_width = Some 10, ns_height = Some 100, ns_ratio = None,
              ns_color = ''#96b08a'', ns_out = Some [''out'']\<rparr>
   \<and> fails_validation
        \<lparr>ns_option = SIZE, ns_width = Some 10, ns_height = Some 100, ns_ratio = None,
         ns_color = ''#96b08a'', ns_out = Some [''out'']\<rparr>
   \<and> main_cli sample_host sample_pil narrow_argv \<lparr>disk = Dir [], logged = []\<rparr>
       = (Inr (Some 1), \<lparr>disk = Dir [], logged = [(ERROR, ''Invalid size 10x100'')]\<rparr>)"
proof -
  let ?foo = "\<lparr>raw_option = ''foo'', raw_width = None, raw_height = None,
                raw_ratio = None, raw_color = None, raw_out = None\<rparr>"
  let ?narrow = "\<lparr>raw_option = ''size'', raw_width = Some ''10'', raw_height = Some ''100'',
                  raw_ratio = None, raw_color = None, raw_out = Some (Some ''out'')\<rparr>"
  let ?ns = "\<lparr>ns_option = SIZE, ns_width = Some 10, ns_height = Some 100, ns_ratio = None,
              ns_color = ''#96b08a'', ns_out = Some [''out'']\<rparr>"
  let ?empty = "\<lparr>disk = Dir [], logged = []\<rparr>"
  have g1: "group_args sample_host [''foo''] = Grouped ?foo" by code_simp
  have r1: "refused_by_parser sample_host ?foo" by code_simp
  have g2: "group_args sample_host narrow_argv = Grouped ?narrow" by code_simp
  have r2: "\<not> refused_by_parser sample_host ?narrow" by code_simp
  have p2: "parse_args sample_host narrow_argv = Inr ?ns" by code_simp
  have f2: "fails_validation ?ns" by code_simp
  have run: "main_cli sample_host sample_pil narrow_argv ?empty
      = (Inr (Some 1), \<lparr>disk = Dir [], logged = [(ERROR, ''Invalid size 10x100'')]\<rparr>)"
    by code_simp
  from main_cli_rejects_invalid_input [OF g1, of sample_pil ?empty] r1
  have refused: "main_cli sample_host sample_pil [''foo''] ?empty = (Inl (SystemExit 2), ?empty)"
    by blast
  from main_cli_rejects_invalid_input [OF g2, of sample_pil ?empty] p2 f2
  have "\<exists>msg. main_cli sample_host sample_pil narrow_argv ?empty
      = (Inr (Some 1), ?empty\<lparr>logged := logged ?empty @ [(ERROR, msg)]\<rparr>)"
    by blast
  then have logged: "fst (main_cli sample_host sample_pil narrow_argv ?empty) = Inr (Some 1)"
    by auto
  show ?thesis
    using g1 r1 refused g2 r2 p2 f2 logged run by simp
qed

text \<open>Conversely, parsed values that pass validation never end in the return value 1.\<close>

lemma well_formed_color_validated:
  assumes "well_formed_color s"
  shows "validate_hex_color s"
proof -
  from assms obtain ds where "s = CHR ''#'' # ds" "list_all hexdigit ds" "length ds \<in> {3, 4, 6, 8}"
    by (auto simp: well_formed_color_def hex_color_with_def split: list.splits)
  then show ?thesis
    unfolding validate_hex_color_accepts by auto
qed

lemma dimensions_pass_Resolved:
  assumes "\<not> dimensions_fail ns"
  shows "\<exists>width height. match_option (namespace_args ns out) = Resolved width height"
proof (cases "ns_option ns")
  case SIZE
  with assms show ?thesis
    by (auto simp: dimensions_fail_def match_option_def namespace_args_def truthy_def
        validate_range_def BOUNDS_width BOUNDS_height split: option.splits)
next
  case RATIO
  with assms obtain a b where "ns_ratio ns = Some [a, b]" "1 \<le> a" "a \<le> 30" "1 \<le> b" "b \<le> 30"
    by (auto simp: dimensions_fail_def split: option.splits list.splits)
  with RATIO show ?thesis
    by (simp add: match_option_def namespace_args_def validate_ratio_pair list_item_def
        dimmentions_from_ratio_unfold Let_def)
qed

lemma passes_validation_not_1:
  assumes "parse_args host argv = Inr ns" and "\<not> dimensions_fail ns"
    and "well_formed_color (ns_color ns)"
  shows "fst (main_cli host pil argv w) \<noteq> Inr (Some 1)"
proof -
  have v: "validate_hex_color (ns_color ns)"
    using assms(3) by (rule well_formed_color_validated)
  show ?thesis
  proof (cases "ns_out ns")
    case None
    from dimensions_pass_Resolved [OF assms(2), of "[]"] v assms(1) None
    show ?thesis by (auto simp: main_cli_def)
  next
    case (Some out)
    from dimensions_pass_Resolved [OF assms(2), of out] obtain width height where
      "match_option (namespace_args ns out) = Resolved width height" by blast
    with v assms(1) Some show ?thesis
      by (auto simp: main_cli_def main_def namespace_args_def
          split: sum.splits bool.splits prod.splits)
  qed
qed

section \<open>Properties of the colour conversion\<close>

lemma hexdigit_value: "hexdigit c \<Longrightarrow> \<exists>d. hex_value c = Some d \<and> 0 \<le> d \<and> d \<le> 15"
  by (auto simp: hexdigit_def in_ranges_def HEX_DIGIT_def hex_value_def Let_def)

lemma hexdigit_not_special:
  assumes "hexdigit c"
  shows "c \<noteq> CHR ''_''" "c \<noteq> CHR ''#''" "\<not> is_space c" "c \<noteq> CHR ''+''" "c \<noteq> CHR ''-''"
  using assms by (auto simp: hexdigit_def in_ranges_def HEX_DIGIT_def is_space_def)

lemma hex_digits_all:
  "list_all hexdigit ds \<Longrightarrow> ds \<noteq> [] \<or> after \<Longrightarrow> 0 \<le> acc
     \<Longrightarrow> \<exists>n. hex_digits acc after ds = Some n \<and> 0 \<le> n"
proof (induction ds arbitrary: acc after)
  case Nil
  then show ?case by simp
next
  case (Cons c cs)
  then obtain d where d: "hex_value c = Some d" "0 \<le> d"
    using hexdigit_value [of c] by auto
  have "\<exists>n. hex_digits (16 * acc + d) True cs = Some n \<and> 0 \<le> n"
    using Cons.IH [of True "16 * acc + d"] Cons.prems d by simp
  then show ?case
    using Cons.prems d hexdigit_not_special(1) [of c] by simp
qed


lemma str_replace_hexdigits:
  "list_all hexdigit ds \<Longrightarrow> str_replace ds (CHR ''#'') new = ds"
  by (induction ds) (auto simp: str_replace_def hexdigit_not_special(2))

lemma str_replace_color:
  assumes "list_all hexdigit ds" and "nl = [] \<or> nl = [CHR 0x0A]"
  shows "str_replace (CHR ''#'' # ds @ nl) (CHR ''#'') ''0x'' = ''0x'' @ ds @ nl"
proof -
  have "str_replace (CHR ''#'' # ds @ nl) (CHR ''#'') ''0x''
      = ''0x'' @ str_replace ds (CHR ''#'') ''0x'' @ str_replace nl (CHR ''#'') ''0x''"
    by (simp add: str_replace_def)
  moreover have "str_replace nl (CHR ''#'') ''0x'' = nl"
    using assms(2) by (auto simp: str_replace_def)
  ultimately show ?thesis
    using str_replace_hexdigits [OF assms(1)] by simp
qed

lemma dropWhile_space_hexdigits:
  assumes "list_all hexdigit ds" and "ds \<noteq> []"
  shows "dropWhile is_space (rev ds @ xs) = rev ds @ xs"
proof (cases "rev ds")
  case Nil
  with assms(2) show ?thesis by simp
next
  case (Cons y ys)
  then have "y \<in> set ds" by (metis list.set_intros(1) set_rev)
  with assms(1) have "hexdigit y" by (simp add: list_all_iff)
  then have "\<not> is_space y" by (rule hexdigit_not_special(3))
  with Cons show ?thesis by simp
qed

lemma str_strip_color:
  assumes "list_all hexdigit ds" and "ds \<noteq> []" and "nl = [] \<or> nl = [CHR 0x0A]"
  shows "str_strip (''0x'' @ ds @ nl) = ''0x'' @ ds"
proof -
  have front: "dropWhile is_space (''0x'' @ ds @ nl) = ''0x'' @ ds @ nl"
    by (simp add: is_space_def)
  have "dropWhile is_space (rev nl @ rev ds @ ''x0'') = rev ds @ ''x0''"
    using assms(3) dropWhile_space_hexdigits [OF assms(1,2), of "''x0''"]
    by (auto simp: is_space_def)
  then show ?thesis
    unfolding str_strip_def front by simp
qed

lemma strip_hex_prefix_color:
  assumes "list_all hexdigit ds" and "ds \<noteq> []"
  shows "strip_hex_prefix (''0x'' @ ds) = ds"
proof (cases ds)
  case Nil
  with assms(2) show ?thesis by simp
next
  case (Cons c cs)
  with assms(1) have "c \<noteq> CHR ''_''" by (simp add: hexdigit_not_special(1))
  with Cons show ?thesis by (simp add: strip_hex_prefix_def)
qed

lemma color_argument_digits:
  assumes "list_all hexdigit ds" and "ds \<noteq> []" and "nl = [] \<or> nl = [CHR 0x0A]"
  shows "color_argument (CHR ''#'' # ds @ nl) =
           (case hex_digits 0 False ds of None \<Rightarrow> Inl ValueError | Some n \<Rightarrow> Inr n)"
  unfolding color_argument_def int_base16_def str_replace_color [OF assms(1,3)]
    str_strip_color [OF assms]
  by (simp add: strip_sign_def strip_hex_prefix_color [OF assms(1,2), simplified]
      cong: option.case_cong)

text \<open>
  A colour that passed \<open>validate_hex_color\<close> is converted without \<open>ValueError\<close>, to a
  natural number.
\<close>

lemma color_argument_valid:
  assumes "validate_hex_color s"
  shows "\<exists>n. color_argument s = Inr n \<and> 0 \<le> n"
proof -
  from assms obtain ds nl where s: "s = CHR ''#'' # ds @ nl" "nl = [] \<or> nl = [CHR 0x0A]"
      and ds: "list_all hexdigit ds" "length ds \<in> {3, 4, 6, 7, 8}"
    unfolding validate_hex_color_accepts by (metis append_Nil2)
  from ds(2) have ne: "ds \<noteq> []" by auto
  from hex_digits_all [OF ds(1), of False 0] ne
  obtain n where "hex_digits 0 False ds = Some n" "0 \<le> n" by auto
  then show ?thesis
    unfolding s(1) color_argument_digits [OF ds(1) ne s(2)] by simp
qed

lemma and_255: "(x::int) AND 255 = x mod 256"
proof -
  have "x AND mask 8 = take_bit 8 x" by (simp add: take_bit_eq_mask)
  moreover have "(mask 8 :: int) = 255" by (simp add: mask_eq_exp_minus_1)
  ultimately show ?thesis by (simp add: take_bit_eq_mod)
qed

lemma byte_split:
  fixes q r :: int
  assumes "0 \<le> r" "r < 256"
  shows "(256 * q + r) div 256 = q" and "(256 * q + r) mod 256 = r"
  using assms by (simp_all add: div_pos_pos_trivial)

lemma channels_of_bytes:
  fixes A B C :: int
  assumes "0 \<le> A" "A < 256" "0 \<le> B" "B < 256" "0 \<le> C" "C < 256"
  shows "drop_bit 16 (65536 * A + 256 * B + C) AND 255 = A"
    and "drop_bit 8 (65536 * A + 256 * B + C) AND 255 = B"
    and "(65536 * A + 256 * B + C) AND 255 = C"
proof -
  let ?n = "65536 * A + 256 * B + C"
  have n: "?n = 256 * (256 * A + B) + C" by simp
  have d8: "?n div 256 = 256 * A + B" unfolding n using assms by (simp add: byte_split)
  have "?n div 65536 = (?n div 256) div 256"
    by (simp add: div_mult2_eq [symmetric])
  also have "\<dots> = A" unfolding d8 using assms by (simp add: byte_split)
  finally have d16: "?n div 65536 = A" .
  show "drop_bit 16 ?n AND 255 = A"
    unfolding and_255 drop_bit_eq_div using d16 assms by simp
  show "drop_bit 8 ?n AND 255 = B"
    unfolding and_255 drop_bit_eq_div using d8 assms by (simp add: byte_split)
  have "?n mod 256 = (256 * (256 * A + B) + C) mod 256" by simp
  also have "\<dots> = C" using assms by (simp only: byte_split)
  finally show "?n AND 255 = C" unfolding and_255 .
qed

text \<open>
  For the six-digit form the fill colour is the colour the string denotes.
\<close>

lemma six_digit_color:
  assumes "list_all hexdigit ds" and "length ds = 6"
  shows "\<exists>n. color_argument (CHR ''#'' # ds) = Inr n
           \<and> denoted_rgb (CHR ''#'' # ds)
               = Some (gen_color (ImageGenerator_init width height n root :: 'px ImageGenerator))"
proof -
  from assms(2) obtain c1 c2 c3 c4 c5 c6 where ds: "ds = [c1, c2, c3, c4, c5, c6]"
    by (auto simp: length_Suc_conv eval_nat_numeral)
  from assms(1) ds obtain v1 v2 v3 v4 v5 v6 where
    v: "hex_value c1 = Some v1" "hex_value c2 = Some v2" "hex_value c3 = Some v3"
       "hex_value c4 = Some v4" "hex_value c5 = Some v5" "hex_value c6 = Some v6"
    and b: "0 \<le> v1" "v1 \<le> 15" "0 \<le> v2" "v2 \<le> 15" "0 \<le> v3" "v3 \<le> 15"
       "0 \<le> v4" "v4 \<le> 15" "0 \<le> v5" "v5 \<le> 15" "0 \<le> v6" "v6 \<le> 15"
    using hexdigit_value [of c1] hexdigit_value [of c2] hexdigit_value [of c3]
      hexdigit_value [of c4] hexdigit_value [of c5] hexdigit_value [of c6]
    by auto
  have u: "c1 \<noteq> CHR ''_''" "c2 \<noteq> CHR ''_''" "c3 \<noteq> CHR ''_''"
      "c4 \<noteq> CHR ''_''" "c5 \<noteq> CHR ''_''" "c6 \<noteq> CHR ''_''"
    using assms(1) ds by (auto dest: hexdigit_not_special(1))
  let ?A = "16 * v1 + v2" and ?B = "16 * v3 + v4" and ?C = "16 * v5 + v6"
  let ?n = "65536 * ?A + 256 * ?B + ?C"
  have "hex_digits 0 False ds = Some ?n"
    unfolding ds using v u by simp
  then have c: "color_argument (CHR ''#'' # ds) = Inr ?n"
    using color_argument_digits [OF assms(1), of "[]"] ds by simp
  have r: "0 \<le> ?A" "?A < 256" "0 \<le> ?B" "?B < 256" "0 \<le> ?C" "?C < 256"
    using b by simp_all
  have g: "gen_color (ImageGenerator_init width height ?n root :: 'px ImageGenerator)
      = \<lparr>rgb_r = ?A, rgb_g = ?B, rgb_b = ?C\<rparr>"
    unfolding ImageGenerator_init_def using channels_of_bytes [OF r] by simp
  have d: "denoted_rgb (CHR ''#'' # ds) = Some \<lparr>rgb_r = ?A, rgb_g = ?B, rgb_b = ?C\<rparr>"
    unfolding ds using v by (simp add: denoted_rgb_def)
  show ?thesis
    using c g d by (intro exI [of _ ?n]) simp
qed

text \<open>
  C3 asks that the fill colour be the colour the string denotes. For the accepted string
  \<open>#fff\<close> the colour argument is the integer 0xfff, whose channels are 0, 15 and 255, not
  255, 255 and 255; for \<open>#11223344\<close> the channels are the last three bytes 0x22, 0x33 and
  0x44, so the leading byte is dropped and the alpha byte is used as blue.
\<close>

theorem shorthand_color_not_expanded:
  "validate_hex_color ''#fff''
   \<and> color_argument ''#fff'' = Inr 4095
   \<and> gen_color (ImageGenerator_init 200 100 4095 [''placeholders''] :: unit ImageGenerator)
       = \<lparr>rgb_r = 0, rgb_g = 15, rgb_b = 255\<rparr>
   \<and> denoted_rgb ''#fff'' = Some \<lparr>rgb_r = 255, rgb_g = 255, rgb_b = 255\<rparr>
   \<and> validate_hex_color ''#11223344''
   \<and> color_argument ''#11223344'' = Inr 0x11223344
   \<and> gen_color (ImageGenerator_init 200 100 0x11223344 [''placeholders''] :: unit ImageGenerator)
       = \<lparr>rgb_r = 0x22, rgb_g = 0x33, rgb_b = 0x44\<rparr>
   \<and> denoted_rgb ''#11223344'' = Some \<lparr>rgb_r = 0x11, rgb_g = 0x22, rgb_b = 0x33\<rparr>"
  by code_simp

lemma gen_color_channels:
  "0 \<le> rgb_r (gen_color (ImageGenerator_init width height color root))
   \<and> rgb_r (gen_color (ImageGenerator_init width height color root)) \<le> 255
   \<and> 0 \<le> rgb_g (gen_color (ImageGenerator_init width height color root))
   \<and> rgb_g (gen_color (ImageGenerator_init width height color root)) \<le> 255
   \<and> 0 \<le> rgb_b (gen_color (ImageGenerator_init width height color root))
   \<and> rgb_b (gen_color (ImageGenerator_init width height color root)) \<le> 255"
  by (simp add: ImageGenerator_init_def AND_upper2')

end
